theory Spec2Isabelle
  imports Complex_Main
begin

section \<open>Plan search: \<^verbatim>\<open>hedge/backends/cuda/plan.py\<close>\<close>

text \<open>
  Python exceptions are values. Only the exception classes that the modelled
  functions can raise are listed; the string is the message.
\<close>

datatype error =
    RuntimeError string
  | ValueError string
  | AssertionError string
  | ZeroDivisionError string
  | IndexError string
  | TypeError string
  | NameError string
  | DatabaseError string

text \<open>
  \<^verbatim>\<open>optimize_plan\<close> is duck-typed. Of a plan object it calls \<^verbatim>\<open>p.invalid_reason()\<close>,
  \<^verbatim>\<open>p.occupancy_record().occupancy\<close> (only on plans whose \<^verbatim>\<open>invalid_reason()\<close> is
  \<^verbatim>\<open>None\<close>; for \<^verbatim>\<open>ExecutionPlan\<close>, lines 166-173, these are exactly the plans for which
  \<^verbatim>\<open>occupancy_record()\<close> does not raise) and, when logging is on,
  \<^verbatim>\<open>p.feature_columns()\<close> and \<^verbatim>\<open>p.features(*extra_info)\<close>, which the plan classes
  outside this module supply and which may raise. A plan is a record of these
  observations plus the plan's own parameters, which the optimiser never inspects.
  Occupancies and costs are Python floats; they are modelled as rationals with exact
  arithmetic, so rounding in \<^verbatim>\<open>occupancy_slack*max_occup\<close> and
  \<^verbatim>\<open>desired_occup - 1e-10\<close> is not represented. The type \<open>'x\<close> stands for the values
  that travel as auxiliary benchmark data and as feature values.
\<close>

record ('a, 'x) plan =
  plan_params :: 'a
  invalid_reason :: "string option"
  occupancy :: rat
  feature_columns :: "string list"
  features :: "'x list \<Rightarrow> error + 'x list"

text \<open>
  What \<^verbatim>\<open>target_func(p)\<close> may return (section 6 of the specification): \<^verbatim>\<open>None\<close>,
  a scalar cost, or a tuple whose first element is the cost (possibly \<^verbatim>\<open>None\<close>) and
  whose remaining elements are auxiliary feature data.
\<close>

datatype 'x bench_result =
    NoneValue
  | Scalar rat
  | Tuple "rat option" "'x list"

text \<open>
  Lines 118-122: a tuple is split into \<^verbatim>\<open>value[0]\<close> and \<^verbatim>\<open>value[1:]\<close>; anything else is
  the value itself with \<^verbatim>\<open>extra_info = None\<close>.
\<close>

definition split_value :: "'x bench_result \<Rightarrow> rat option \<times> 'x list option" where
  "split_value v =
     (case v of
        Tuple c extra_info \<Rightarrow> (c, Some extra_info)
      | Scalar c \<Rightarrow> (Some c, None)
      | NoneValue \<Rightarrow> (None, None))"

definition cost_of :: "'x bench_result \<Rightarrow> rat option" where
  "cost_of v = fst (split_value v)"

text \<open>
  Modelled from the spec: \<^verbatim>\<open>argmax2\<close> and \<^verbatim>\<open>argmin2\<close> are imported from the
  \<^verbatim>\<open>pytools\<close> package, which is not under \<^verbatim>\<open>src/\<close>. Section 4.3, step 5 calls them a
  stable argmax/argmin over \<^verbatim>\<open>(argument, value)\<close> pairs, ties broken by
  first-encountered order: a single left-to-right scan that replaces the current
  candidate only on a strictly better value. On an empty sequence there is no
  candidate and the call raises.
\<close>

fun argmax2_scan :: "'b \<Rightarrow> rat \<Rightarrow> ('b \<times> rat) list \<Rightarrow> 'b" where
  "argmax2_scan current_argmax current_max [] = current_argmax"
| "argmax2_scan current_argmax current_max ((arg, item) # rest) =
     (if item > current_max then argmax2_scan arg item rest
      else argmax2_scan current_argmax current_max rest)"

fun argmin2_scan :: "'b \<Rightarrow> rat \<Rightarrow> ('b \<times> rat) list \<Rightarrow> 'b" where
  "argmin2_scan current_argmin current_min [] = current_argmin"
| "argmin2_scan current_argmin current_min ((arg, item) # rest) =
     (if item < current_min then argmin2_scan arg item rest
      else argmin2_scan current_argmin current_min rest)"

fun argmax2 :: "('b \<times> rat) list \<Rightarrow> error + 'b" where
  "argmax2 [] = Inl (ValueError ''argmax of empty iterable'')"
| "argmax2 ((arg, item) # rest) = Inr (argmax2_scan arg item rest)"

fun argmin2 :: "('b \<times> rat) list \<Rightarrow> error + 'b" where
  "argmin2 [] = Inl (ValueError ''argmin of empty iterable'')"
| "argmin2 ((arg, item) # rest) = Inr (argmin2_scan arg item rest)"

text \<open>Python's built-in \<^verbatim>\<open>max\<close> over a generator (line 79).\<close>

fun py_max :: "rat list \<Rightarrow> error + rat" where
  "py_max [] = Inl (ValueError ''max() arg is an empty sequence'')"
| "py_max (x # xs) = Inr (fold max xs x)"

subsection \<open>Logging\<close>

text \<open>
  Lines 68-69: a log file name counts only when the flag \<^verbatim>\<open>cuda_plan_log\<close> is set.
\<close>

definition active_log :: "string set \<Rightarrow> string option \<Rightarrow> string option" where
  "active_log debug_flags log_filename =
     (if ''cuda_plan_log'' \<notin> debug_flags then None else log_filename)"

text \<open>
  Modelled from the spec: \<^verbatim>\<open>single_valued\<close> is imported from \<^verbatim>\<open>pytools\<close>, which is not
  under \<^verbatim>\<open>src/\<close>. Section 4.3 step 4 and section 7: all plans of one generator must
  declare the same feature columns; a disagreement surfaces as an error of the logging
  set-up. The common value is returned.
\<close>

fun single_valued :: "'v list \<Rightarrow> error + 'v" where
  "single_valued [] = Inl (ValueError ''empty iterable passed to single_valued()'')"
| "single_valued (first_item # rest) =
     (if list_all (\<lambda>other_item. other_item = first_item) rest then Inr first_item
      else Inl (ValueError ''non-matching values passed to single_valued()''))"

text \<open>
  Line 85, \<^verbatim>\<open>fc.split()[0]\<close>: the first run of non-whitespace characters of a column
  declaration; \<^verbatim>\<open>IndexError\<close> when there is none.
\<close>

definition is_space :: "char \<Rightarrow> bool" where
  "is_space c \<longleftrightarrow> c \<in> set [CHR '' '', CHR 0x09, CHR 0x0A, CHR 0x0B, CHR 0x0C, CHR 0x0D]"

definition first_word :: "string \<Rightarrow> error + string" where
  "first_word fc =
     (case takeWhile (\<lambda>c. \<not> is_space c) (dropWhile is_space fc) of
        [] \<Rightarrow> Inl (IndexError ''list index out of range'')
      | w # ord \<Rightarrow> Inr (w # ord))"

fun feature_names_of :: "string list \<Rightarrow> error + string list" where
  "feature_names_of [] = Inr []"
| "feature_names_of (fc # fcs) =
     (case first_word fc of
        Inl e \<Rightarrow> Inl e
      | Inr name \<Rightarrow>
          (case feature_names_of fcs of
             Inl e \<Rightarrow> Inl e
           | Inr names \<Rightarrow> Inr (name # names)))"

text \<open>
  Lines 82-102, the logging set-up: \<open>None\<close> when logging is off, otherwise the feature
  names. Importing \<^verbatim>\<open>sqlite3\<close>, opening the database file and creating the table
  (whose failure with \<^verbatim>\<open>OperationalError\<close> is swallowed) act on the file system only and
  are not modelled.
\<close>

definition log_setup ::
  "string option \<Rightarrow> ('a, 'x) plan list \<Rightarrow> error + string list option" where
  "log_setup log_filename plans =
     (case log_filename of
        None \<Rightarrow> Inr None
      | Some name \<Rightarrow>
          (case single_valued (map feature_columns plans) of
             Inl e \<Rightarrow> Inl e
           | Inr columns \<Rightarrow>
               (case feature_names_of columns of
                  Inl e \<Rightarrow> Inl e
                | Inr feature_names \<Rightarrow> Inr (Some feature_names))))"

text \<open>
  Lines 130-134, the row \<^verbatim>\<open>p.features(*extra_info)+(value,)\<close> and its insertion.
  Unpacking \<^verbatim>\<open>extra_info\<close> when it is \<^verbatim>\<open>None\<close> (the benchmark returned a cost that is
  not a tuple, line 122) raises \<^verbatim>\<open>TypeError\<close>. The statement has one placeholder per
  feature name and one for the value; \<^verbatim>\<open>sqlite3\<close> refuses a row of another length.
\<close>

definition log_insert ::
  "string list \<Rightarrow> ('a, 'x) plan \<Rightarrow> 'x list option \<Rightarrow> rat \<Rightarrow> error + ('x list \<times> rat)" where
  "log_insert feature_names p extra_info v =
     (case extra_info of
        None \<Rightarrow> Inl (TypeError ''features() argument after * must be a sequence, not NoneType'')
      | Some extras \<Rightarrow>
          (case features p extras of
             Inl e \<Rightarrow> Inl e
           | Inr feature_values \<Rightarrow>
               if length feature_values + 1 = 1 + length feature_names
               then Inr (feature_values, v)
               else Inl (DatabaseError ''Incorrect number of bindings supplied'')))"

subsection \<open>The benchmarking loop\<close>

text \<open>
  Lines 108-134. The state of the loop is the list \<^verbatim>\<open>plan_values\<close>, whose entries are
  \<^verbatim>\<open>((len(plan_values), p), value)\<close>, and the rows inserted so far. Calling
  \<^verbatim>\<open>target_func\<close> is an effect of the loop; each call is recorded, in order, in
  \<open>benchmarked\<close> together with the value it returned, which is the value the loop goes
  on to use. A step returns the new state and the exception it raised, if any; the
  entry of line 127 is appended before the row is built, so it is there when the
  insertion raises.
\<close>

record ('a, 'x) scan_state =
  plan_values :: "((nat \<times> ('a, 'x) plan) \<times> rat) list"
  benchmarked :: "(('a, 'x) plan \<times> 'x bench_result) list"
  inserted :: "('x list \<times> rat) list"

definition scan_init :: "('a, 'x) scan_state" where
  "scan_init = \<lparr>plan_values = [], benchmarked = [], inserted = []\<rparr>"

definition scan_step ::
  "(('a, 'x) plan \<Rightarrow> 'x bench_result) \<Rightarrow> string list option \<Rightarrow> rat \<Rightarrow> ('a, 'x) scan_state
     \<Rightarrow> ('a, 'x) plan \<Rightarrow> ('a, 'x) scan_state \<times> error option" where
  "scan_step target_func logging desired_occup st p =
     (if occupancy p \<ge> desired_occup - 1 / 10 ^ 10 then
        (let returned = target_func p;
             called = st\<lparr>benchmarked := benchmarked st @ [(p, returned)]\<rparr>
         in case split_value returned of
              (None, extra_info) \<Rightarrow> (called, None)
            | (Some v, extra_info) \<Rightarrow>
                (let appended =
                       called\<lparr>plan_values :=
                                plan_values st @ [((length (plan_values st), p), v)]\<rparr>
                 in case logging of
                      None \<Rightarrow> (appended, None)
                    | Some feature_names \<Rightarrow>
                        (case log_insert feature_names p extra_info v of
                           Inl e \<Rightarrow> (appended, Some e)
                         | Inr row \<Rightarrow>
                             (appended\<lparr>inserted := inserted st @ [row]\<rparr>, None))))
      else (st, None))"

text \<open>The \<^verbatim>\<open>for\<close> loop: an exception ends it and leaves the state reached so far.\<close>

fun scan_plans ::
  "(('a, 'x) plan \<Rightarrow> 'x bench_result) \<Rightarrow> string list option \<Rightarrow> rat \<Rightarrow> ('a, 'x) plan list
     \<Rightarrow> ('a, 'x) scan_state \<Rightarrow> ('a, 'x) scan_state \<times> error option" where
  "scan_plans target_func logging desired_occup [] st = (st, None)"
| "scan_plans target_func logging desired_occup (p # ps) st =
     (case scan_step target_func logging desired_occup st p of
        (st', Some e) \<Rightarrow> (st', Some e)
      | (st', None) \<Rightarrow> scan_plans target_func logging desired_occup ps st')"

text \<open>Lines 142-156: the extremal entry and the cost stored under its number.\<close>

definition select_plan ::
  "bool \<Rightarrow> ((nat \<times> ('a, 'x) plan) \<times> rat) list \<Rightarrow> error + (('a, 'x) plan \<times> rat)" where
  "select_plan maximize pvs =
     (case (if maximize then argmax2 pvs else argmin2 pvs) of
        Inl e \<Rightarrow> Inl e
      | Inr (num_plan, plan) \<Rightarrow>
          if num_plan < length pvs then Inr (plan, snd (pvs ! num_plan))
          else Inl (IndexError ''list index out of range''))"

subsection \<open>\<^verbatim>\<open>optimize_plan\<close>\<close>

text \<open>
  What a call of \<^verbatim>\<open>optimize_plan\<close> leaves behind: the calls of \<^verbatim>\<open>target_func\<close> with the
  values they returned, in order; the rows committed to the log (line 140 commits
  after the loop, so a run whose loop raises commits nothing); and the returned pair or
  the raised exception.
\<close>

record ('a, 'x) run =
  benchmark_calls :: "(('a, 'x) plan \<times> 'x bench_result) list"
  log_rows :: "('x list \<times> rat) list"
  outcome :: "error + (('a, 'x) plan \<times> rat)"

definition no_plan_requested :: "string \<Rightarrow> string set \<Rightarrow> bool" where
  "no_plan_requested opt_name debug_flags \<longleftrightarrow>
     {''cuda_no_plan'', ''cuda_no_plan_'' @ opt_name} \<inter> debug_flags \<noteq> {}"

text \<open>
  \<^verbatim>\<open>optimize_plan\<close>, lines 61-156. The generator is realised to a finite list at line
  63. The progress bar and the debug printing do not influence the result and are left
  out.
\<close>

definition optimize_plan ::
  "string \<Rightarrow> ('a, 'x) plan list \<Rightarrow> (('a, 'x) plan \<Rightarrow> 'x bench_result) \<Rightarrow> bool \<Rightarrow> string set
     \<Rightarrow> rat \<Rightarrow> string option \<Rightarrow> ('a, 'x) run" where
  "optimize_plan opt_name plan_generator target_func maximize debug_flags occupancy_slack
       log_filename =
     (let plans = filter (\<lambda>p. invalid_reason p = None) plan_generator;
          log_filename = active_log debug_flags log_filename
      in if plans = [] then
           \<lparr>benchmark_calls = [], log_rows = [],
            outcome = Inl (RuntimeError ''no valid CUDA execution plans found'')\<rparr>
         else if no_plan_requested opt_name debug_flags then
           \<lparr>benchmark_calls = [], log_rows = [],
            outcome = (case argmax2 (map (\<lambda>plan. (plan, occupancy plan)) plans) of
                         Inl e \<Rightarrow> Inl e
                       | Inr plan \<Rightarrow> Inr (plan, 0))\<rparr>
         else
           (case py_max (map occupancy plans) of
              Inl e \<Rightarrow> \<lparr>benchmark_calls = [], log_rows = [], outcome = Inl e\<rparr>
            | Inr max_occup \<Rightarrow>
                (let desired_occup = occupancy_slack * max_occup
                 in case log_setup log_filename plans of
                      Inl e \<Rightarrow> \<lparr>benchmark_calls = [], log_rows = [], outcome = Inl e\<rparr>
                    | Inr logging \<Rightarrow>
                        (case scan_plans target_func logging desired_occup plans scan_init of
                           (st, Some e) \<Rightarrow>
                             \<lparr>benchmark_calls = benchmarked st, log_rows = [],
                              outcome = Inl e\<rparr>
                         | (st, None) \<Rightarrow>
                             \<lparr>benchmark_calls = benchmarked st, log_rows = inserted st,
                              outcome = select_plan maximize (plan_values st)\<rparr>))))"

text \<open>
  Auxiliary notions used to state and prove the properties of the loop:
  \<open>within_slack\<close> is the test of line 113, \<open>recorded\<close> lists the \<^verbatim>\<open>(p, value)\<close> pairs
  a loop that runs to its end appends (in order, without their numbers), and
  \<open>number_entry\<close> attaches the number \<^verbatim>\<open>len(plan_values)\<close> the way line 127 nests it.
\<close>

definition within_slack :: "rat \<Rightarrow> ('a, 'x) plan \<Rightarrow> bool" where
  "within_slack desired_occup p \<longleftrightarrow> occupancy p \<ge> desired_occup - 1 / 10 ^ 10"

definition recorded ::
  "(('a, 'x) plan \<Rightarrow> 'x bench_result) \<Rightarrow> rat \<Rightarrow> ('a, 'x) plan list
     \<Rightarrow> (('a, 'x) plan \<times> rat) list" where
  "recorded target_func desired_occup plans =
     concat (map (\<lambda>p. if within_slack desired_occup p
                        then (case cost_of (target_func p) of None \<Rightarrow> [] | Some v \<Rightarrow> [(p, v)])
                        else []) plans)"

definition number_entry ::
  "nat \<times> (('a, 'x) plan \<times> rat) \<Rightarrow> (nat \<times> ('a, 'x) plan) \<times> rat" where
  "number_entry e = ((fst e, fst (snd e)), snd (snd e))"

text \<open>
  Fixtures in the style of section 8 of the specification: valid plans that differ in
  their parameter and occupancy and declare two feature columns, a benchmark given by
  a table of scalar costs (a plan without an entry gets \<^verbatim>\<open>None\<close>), and one that returns
  the cost in a tuple with the two feature values.
\<close>

definition fixture_plan :: "nat \<Rightarrow> rat \<Rightarrow> (nat, nat) plan" where
  "fixture_plan n occ =
     \<lparr>plan_params = n, invalid_reason = None, occupancy = occ,
      feature_columns = [''threads integer'', ''smem integer''],
      features = (\<lambda>extras. Inr extras)\<rparr>"

definition fixture_invalid :: "nat \<Rightarrow> string \<Rightarrow> (nat, nat) plan" where
  "fixture_invalid n reason =
     \<lparr>plan_params = n, invalid_reason = Some reason, occupancy = 0,
      feature_columns = [''threads integer'', ''smem integer''],
      features = (\<lambda>extras. Inr extras)\<rparr>"

definition fixture_costs :: "(nat \<times> rat) list \<Rightarrow> (nat, nat) plan \<Rightarrow> nat bench_result" where
  "fixture_costs table p =
     (case map_of table (plan_params p) of None \<Rightarrow> NoneValue | Some c \<Rightarrow> Scalar c)"

definition fixture_tuple_costs :: "(nat \<times> rat) list \<Rightarrow> (nat, nat) plan \<Rightarrow> nat bench_result" where
  "fixture_tuple_costs table p =
     (case map_of table (plan_params p) of
        None \<Rightarrow> NoneValue
      | Some c \<Rightarrow> Tuple (Some c) [64 * plan_params p, 1024])"

section \<open>Microblock layout: \<^verbatim>\<open>PlanGivenData._find_microblock_size\<close>\<close>

text \<open>The \<^verbatim>\<open>MicroblockInfo\<close> record of lines 239-240.\<close>

record microblock_info =
  align_size :: int
  elements :: int
  aligned_floats :: int

text \<open>
  Modelled from the spec: \<^verbatim>\<open>int_ceiling\<close> is defined in
  \<^verbatim>\<open>hedge/backends/cuda/tools.py\<close>, which is not under \<^verbatim>\<open>src/\<close>. The specification
  describes its result as the value rounded up to a multiple of the second argument;
  a zero multiple makes the division fail.
\<close>

definition int_ceiling :: "int \<Rightarrow> int \<Rightarrow> error + int" where
  "int_ceiling val multiple_of =
     (if multiple_of = 0 then Inl (ZeroDivisionError ''division by zero'')
      else Inr (\<lceil>rat_of_int val / rat_of_int multiple_of\<rceil> * multiple_of))"

text \<open>
  The padding overhead of line 253 for a given number of alignment chunks. The module
  imports true division, so the quotient is a float; it is modelled as an exact
  rational. (For \<^verbatim>\<open>mb_aligned_floats\<close> below \<open>7 * 10^15\<close> the float comparison with
  \<^verbatim>\<open>0.05\<close> agrees with the exact one.)
\<close>

definition padding_overhead :: "int \<Rightarrow> int \<Rightarrow> int \<Rightarrow> rat" where
  "padding_overhead align dofs_per_el mb_align_chunks =
     (let mb_aligned_floats = align * mb_align_chunks;
          mb_elements = mb_aligned_floats div dofs_per_el;
          mb_floats = dofs_per_el * mb_elements
      in rat_of_int (mb_aligned_floats - mb_floats) / rat_of_int mb_aligned_floats)"

text \<open>
  The loop of lines 249-259 over the remaining values of \<^verbatim>\<open>mb_align_chunks\<close>, with the
  \<^verbatim>\<open>assert False\<close> of line 261 when the range is exhausted. Python's \<^verbatim>\<open>//\<close> and \<^verbatim>\<open>/\<close> raise
  on a zero divisor; \<^verbatim>\<open>//\<close> on integers rounds towards minus infinity, as \<open>div\<close> does.
\<close>

fun find_microblock_scan :: "int \<Rightarrow> int \<Rightarrow> int list \<Rightarrow> error + microblock_info" where
  "find_microblock_scan align dofs_per_el [] =
     Inl (AssertionError ''a valid microblock size was not found'')"
| "find_microblock_scan align dofs_per_el (mb_align_chunks # rest) =
     (let mb_aligned_floats = align * mb_align_chunks in
      if dofs_per_el = 0 then Inl (ZeroDivisionError ''integer division or modulo by zero'')
      else
        (let mb_elements = mb_aligned_floats div dofs_per_el;
             mb_floats = dofs_per_el * mb_elements
         in if mb_aligned_floats = 0 then Inl (ZeroDivisionError ''division by zero'')
            else
              (let overhead =
                     rat_of_int (mb_aligned_floats - mb_floats) / rat_of_int mb_aligned_floats
               in if overhead \<le> 5 / 100 then
                    Inr \<lparr>align_size = align, elements = mb_elements,
                         aligned_floats = mb_aligned_floats\<rparr>
                  else find_microblock_scan align dofs_per_el rest)))"

text \<open>
  \<^verbatim>\<open>_find_microblock_size\<close>, lines 234-261. Its inputs besides the flag are
  \<^verbatim>\<open>self.devdata.align_words(self.float_size())\<close> and \<^verbatim>\<open>self.dofs_per_el()\<close>, both
  integers supplied by objects outside this module.
\<close>

definition find_microblock_size :: "bool \<Rightarrow> int \<Rightarrow> int \<Rightarrow> error + microblock_info" where
  "find_microblock_size allow_microblocking align dofs_per_el =
     (if \<not> allow_microblocking then
        (case int_ceiling dofs_per_el align of
           Inl e \<Rightarrow> Inl e
         | Inr rounded \<Rightarrow> Inr \<lparr>align_size = align, elements = 1, aligned_floats = rounded\<rparr>)
      else find_microblock_scan align dofs_per_el [1..255])"

section \<open>Compiled vector expressions: \<^verbatim>\<open>hedge/backends/vector_expr.py\<close>\<close>

text \<open>
  Modelled from the spec: the symbolic expression library (\<^verbatim>\<open>pymbolic\<close> and
  \<^verbatim>\<open>hedge.optemplate\<close>) is not under \<^verbatim>\<open>src/\<close>; the specification treats it as a black-box
  tree representation with dependency collection, substitution and stringification.
  The constructors below are the nodes the source itself builds, \<^verbatim>\<open>var(name)\<close> and
  \<^verbatim>\<open>var(name)[var_i]\<close> (lines 90-96), literal constants, a generic compound node (an
  operator or call applied to children), and a node of a type for which the
  substitution mapper defines no method, which is the case
  \<^verbatim>\<open>handle_unsupported_expression\<close> exists for. \<open>PyNone\<close> is Python's \<^verbatim>\<open>None\<close> in a place
  where an expression is expected: it is what \<^verbatim>\<open>handle_unsupported_expression\<close> returns
  when it falls off its last branch.
\<close>

datatype expr =
    Variable string
  | Subscript expr expr
  | Constant rat
  | Operation string "expr list"
  | Unsupported string
  | PyNone

text \<open>Python's \<^verbatim>\<open>"%d" % i\<close> for a non-negative integer.\<close>

definition digit_char :: "nat \<Rightarrow> char" where
  "digit_char n = ''0123456789'' ! n"

fun str_nat :: "nat \<Rightarrow> string" where
  "str_nat n = (if n < 10 then [digit_char n] else str_nat (n div 10) @ [digit_char (n mod 10)])"

declare str_nat.simps [simp del]

text \<open>
  \<^verbatim>\<open>dict(pairs)\<close>: a later pair with the same key replaces an earlier one. \<^verbatim>\<open>subst_func\<close>
  (lines 98-102) returns \<^verbatim>\<open>subst_map[expr]\<close> and \<^verbatim>\<open>None\<close> on \<^verbatim>\<open>KeyError\<close>, so it is the
  dictionary read as a partial function.
\<close>

definition py_dict :: "('k \<times> 'v) list \<Rightarrow> ('k \<rightharpoonup> 'v)" where
  "py_dict pairs = map_of (rev pairs)"

text \<open>Lines 82-83 and 90-96: the generated names and the substitution map.\<close>

definition vector_names_for :: "expr list \<Rightarrow> string list" where
  "vector_names_for vector_exprs = map (\<lambda>i. ''v'' @ str_nat i) [0..<length vector_exprs]"

definition scalar_names_for :: "expr list \<Rightarrow> string list" where
  "scalar_names_for scalar_exprs = map (\<lambda>i. ''s'' @ str_nat i) [0..<length scalar_exprs]"

definition make_subst_map :: "expr list \<Rightarrow> expr list \<Rightarrow> (expr \<rightharpoonup> expr)" where
  "make_subst_map vector_exprs scalar_exprs =
     (let var_i = Variable ''i'' in
      py_dict (zip vector_exprs (map (\<lambda>vecname. Subscript (Variable vecname) var_i)
                                     (vector_names_for vector_exprs))
               @ zip scalar_exprs (map (\<lambda>scaname. Variable scaname)
                                       (scalar_names_for scalar_exprs))))"

text \<open>
  \<^verbatim>\<open>DefaultingSubstitutionMapper.handle_unsupported_expression\<close>, lines 36-42. The
  result of \<^verbatim>\<open>self.subst_func(expr)\<close> is the image of \<open>expr\<close> in the map, or \<^verbatim>\<open>None\<close>. The
  parameter \<open>inherited\<close> stands for the handler of the base class
  (\<^verbatim>\<open>SubstitutionMapper.handle_unsupported_expression\<close>, from \<^verbatim>\<open>pymbolic\<close>, not under
  \<^verbatim>\<open>src/\<close>): \<open>Some err\<close> when it raises \<open>err\<close>, \<open>None\<close> when it returns. The \<^verbatim>\<open>else\<close>
  branch has no \<^verbatim>\<open>return\<close>, so when the inherited handler returns, the method returns
  \<^verbatim>\<open>None\<close>.
\<close>

definition handle_unsupported_expression ::
  "(expr \<Rightarrow> error option) \<Rightarrow> (expr \<rightharpoonup> expr) \<Rightarrow> expr \<Rightarrow> error + expr" where
  "handle_unsupported_expression inherited subst_func expr =
     (let result = (case subst_func expr of Some img \<Rightarrow> img | None \<Rightarrow> PyNone)
      in if result \<noteq> PyNone then Inr result
         else (case inherited expr of Some err \<Rightarrow> Inl err | None \<Rightarrow> Inr PyNone))"

text \<open>
  Modelled from the spec: the traversal that \<^verbatim>\<open>DefaultingSubstitutionMapper\<close> inherits
  from \<^verbatim>\<open>SubstitutionMapper\<close> and \<^verbatim>\<open>IdentityMapperMixin\<close> (neither under \<^verbatim>\<open>src/\<close>).
  Section 4.4 step 4 and section 9: an explicit mapping lookup at each node; a node in
  the map is replaced by its image; a node not in the map is passed through, rebuilt
  from its rewritten children. A node of a type the mapper has no method for goes to
  \<open>handle_unsupported_expression\<close> above, from the source, with the inherited handler
  as a parameter.
\<close>

fun substitute :: "(expr \<Rightarrow> error option) \<Rightarrow> (expr \<rightharpoonup> expr) \<Rightarrow> expr \<Rightarrow> error + expr"
  and substitute_all ::
    "(expr \<Rightarrow> error option) \<Rightarrow> (expr \<rightharpoonup> expr) \<Rightarrow> expr list \<Rightarrow> error + expr list" where
  "substitute inherited subst_func (Unsupported tag) =
     handle_unsupported_expression inherited subst_func (Unsupported tag)"
| "substitute inherited subst_func (Subscript aggregate index) =
     (case subst_func (Subscript aggregate index) of
        Some img \<Rightarrow> Inr img
      | None \<Rightarrow>
          (case substitute inherited subst_func aggregate of
             Inl err \<Rightarrow> Inl err
           | Inr aggregate' \<Rightarrow>
               (case substitute inherited subst_func index of
                  Inl err \<Rightarrow> Inl err
                | Inr index' \<Rightarrow> Inr (Subscript aggregate' index'))))"
| "substitute inherited subst_func (Operation op children) =
     (case subst_func (Operation op children) of
        Some img \<Rightarrow> Inr img
      | None \<Rightarrow>
          (case substitute_all inherited subst_func children of
             Inl err \<Rightarrow> Inl err
           | Inr children' \<Rightarrow> Inr (Operation op children')))"
| "substitute inherited subst_func (Variable name) =
     (case subst_func (Variable name) of Some img \<Rightarrow> Inr img | None \<Rightarrow> Inr (Variable name))"
| "substitute inherited subst_func (Constant c) =
     (case subst_func (Constant c) of Some img \<Rightarrow> Inr img | None \<Rightarrow> Inr (Constant c))"
| "substitute inherited subst_func PyNone =
     (case subst_func PyNone of Some img \<Rightarrow> Inr img | None \<Rightarrow> Inr PyNone)"
| "substitute_all inherited subst_func [] = Inr []"
| "substitute_all inherited subst_func (e # es) =
     (case substitute inherited subst_func e of
        Inl err \<Rightarrow> Inl err
      | Inr e' \<Rightarrow>
          (case substitute_all inherited subst_func es of
             Inl err \<Rightarrow> Inl err
           | Inr es' \<Rightarrow> Inr (e' # es')))"



text \<open>
  The state \<^verbatim>\<open>CompiledVectorExpressionBase.__init__\<close> leaves in the object, lines 67-106
  (\<^verbatim>\<open>constant_dtypes\<close>, lines 85-88, only feeds the caller's result-type function and is
  left out).
\<close>

record builder =
  vec_exprs :: "expr list"
  vector_exprs :: "expr list"
  scalar_exprs :: "expr list"
  vector_names :: "string list"
  scalar_names :: "string list"
  exprs :: "expr list"

text \<open>
  \<^verbatim>\<open>__init__\<close>. \<^verbatim>\<open>DependencyMapper\<close> comes from \<^verbatim>\<open>hedge.optemplate\<close> and returns a Python
  set; it is the parameter \<open>dep_mapper\<close>. The parameter \<open>inherited\<close> is the base class's
  handler for unsupported expressions, as above. The sets are combined with \<^verbatim>\<open>reduce(or_, ...)\<close>,
  which raises on an empty sequence. The two comprehensions of lines 80-81 iterate the
  same, unmodified set object; the order in which CPython iterates a set is the
  parameter \<open>set_order\<close>.
\<close>

definition init_builder ::
  "(expr \<Rightarrow> error option) \<Rightarrow> (expr \<Rightarrow> expr set) \<Rightarrow> (expr set \<Rightarrow> expr list) \<Rightarrow> expr list
     \<Rightarrow> (expr \<Rightarrow> bool) \<Rightarrow> error + builder" where
  "init_builder inherited dep_mapper set_order ves is_vector_func =
     (case ves of
        [] \<Rightarrow> Inl (TypeError ''reduce() of empty sequence with no initial value'')
      | first # rest \<Rightarrow>
          (let deps = foldl (\<union>) (dep_mapper first) (map dep_mapper rest);
               vecs = filter (\<lambda>dep. is_vector_func dep) (set_order deps);
               scas = filter (\<lambda>dep. \<not> is_vector_func dep) (set_order deps)
           in case substitute_all inherited (make_subst_map vecs scas) ves of
                Inl err \<Rightarrow> Inl err
              | Inr rewritten \<Rightarrow>
                  Inr \<lparr>vec_exprs = ves, vector_exprs = vecs, scalar_exprs = scas,
                       vector_names = vector_names_for vecs,
                       scalar_names = scalar_names_for scas,
                       exprs = rewritten\<rparr>))"

text \<open>
  \<^verbatim>\<open>get_kernel\<close>, lines 108-149. \<^verbatim>\<open>CCodeMapper\<close> is \<^verbatim>\<open>pymbolic\<close>'s and is a parameter:
  applied to the rewritten expressions in order (line 125) it yields their C strings
  and leaves in \<^verbatim>\<open>code_mapper.cses\<close> the strings of the common sub-expressions it met.
  The comprehension of lines 127-132 evaluates \<^verbatim>\<open>get_c_declarator(...)\<close> for its first
  element; the module neither imports nor defines that name, so with a non-empty
  \<^verbatim>\<open>cses\<close> the look-up raises \<^verbatim>\<open>NameError\<close>, and with an empty one nothing is evaluated.
\<close>

definition cse_binding_lines :: "string list \<Rightarrow> error + string list" where
  "cse_binding_lines cses =
     (case cses of
        [] \<Rightarrow> Inr []
      | cse # _ \<Rightarrow> Inl (NameError ''get_c_declarator''))"

definition result_line :: "nat \<times> string \<Rightarrow> string" where
  "result_line p = ''_result'' @ str_nat (fst p) @ ''[i] = '' @ snd p @ '';''"

definition kernel_code_lines ::
  "(expr list \<Rightarrow> error + string list \<times> string list) \<Rightarrow> expr list \<Rightarrow> error + string list" where
  "kernel_code_lines code_mapper es =
     (case code_mapper es of
        Inl err \<Rightarrow> Inl err
      | Inr (expr_codes, cses) \<Rightarrow>
          (case cse_binding_lines cses of
             Inl err \<Rightarrow> Inl err
           | Inr bindings \<Rightarrow> Inr (bindings @ map result_line (List.enumerate 0 expr_codes))))"

datatype 'd arg = VectorArg 'd string | ScalarArg 'd string

text \<open>
  A kernel is represented by what \<^verbatim>\<open>make_kernel_internal\<close> is given: the argument list
  and the body text (the code lines joined by newlines).
\<close>

record 'd kernel_record =
  kernel :: "'d arg list \<times> string"
  result_dtype :: 'd

fun join_lines :: "string list \<Rightarrow> string" where
  "join_lines [] = []"
| "join_lines [l] = l"
| "join_lines (l # ls) = l @ [CHR 0x0A] @ join_lines ls"

definition get_kernel ::
  "builder \<Rightarrow> ((expr \<times> 'd) list \<Rightarrow> (expr \<times> 'd) list \<Rightarrow> error + 'd)
     \<Rightarrow> (expr list \<Rightarrow> error + string list \<times> string list) \<Rightarrow> 'd list \<Rightarrow> 'd list
     \<Rightarrow> error + 'd kernel_record" where
  "get_kernel self result_dtype_getter code_mapper vector_dtypes scalar_dtypes =
     (case result_dtype_getter (zip (vector_exprs self) vector_dtypes)
                               (zip (scalar_exprs self) scalar_dtypes) of
        Inl err \<Rightarrow> Inl err
      | Inr rd \<Rightarrow>
          (let args = map (\<lambda>i. VectorArg rd (''_result'' @ str_nat i)) [0..<length (exprs self)]
           in case kernel_code_lines code_mapper (exprs self) of
                Inl err \<Rightarrow> Inl err
              | Inr code_lines \<Rightarrow>
                  Inr \<lparr>kernel =
                         (args
                          @ map (\<lambda>(dtype, name). VectorArg dtype name)
                              (zip vector_dtypes (vector_names self))
                          @ map (\<lambda>(dtype, name). ScalarArg dtype name)
                              (zip scalar_dtypes (scalar_names self)),
                          join_lines code_lines),
                       result_dtype = rd\<rparr>))"

text \<open>
  Fixtures for the builder: the targets \<open>a*b + c\<close> and \<open>a*b - c\<close> of section 8, with \<open>a\<close>
  and \<open>b\<close> vector-valued and \<open>c\<close> scalar; a dependency collector that returns the
  variables and subscripts of an expression and descends into compound nodes; an
  iteration order for subsets of \<open>{a, b, c}\<close>; two stand-ins for the base class's
  handler for unsupported expressions, one that raises and one that returns; and, for
  \<^verbatim>\<open>get_kernel\<close>, the output of a code mapper that met one common sub-expression.
\<close>

definition raising_handler :: "expr \<Rightarrow> error option" where
  "raising_handler e = Some (ValueError ''cannot handle this expression type'')"

definition returning_handler :: "expr \<Rightarrow> error option" where
  "returning_handler e = None"

definition fixture_sum :: expr where
  "fixture_sum = Operation ''+'' [Operation ''*'' [Variable ''a'', Variable ''b''], Variable ''c'']"

definition fixture_difference :: expr where
  "fixture_difference = Operation ''-'' [Operation ''*'' [Variable ''a'', Variable ''b''], Variable ''c'']"

fun fixture_deps :: "expr \<Rightarrow> expr set" where
  "fixture_deps (Variable name) = {Variable name}"
| "fixture_deps (Subscript aggregate index) = {Subscript aggregate index}"
| "fixture_deps (Operation op children) = (\<Union>child \<in> set children. fixture_deps child)"
| "fixture_deps e = {}"

definition fixture_order :: "expr set \<Rightarrow> expr list" where
  "fixture_order deps = filter (\<lambda>e. e \<in> deps) [Variable ''a'', Variable ''b'', Variable ''c'']"

definition fixture_is_vector :: "expr \<Rightarrow> bool" where
  "fixture_is_vector e \<longleftrightarrow> e \<in> {Variable ''a'', Variable ''b''}"

definition fixture_builder :: builder where
  "fixture_builder =
     \<lparr>vec_exprs = [fixture_sum, fixture_difference],
      vector_exprs = [Variable ''a'', Variable ''b''],
      scalar_exprs = [Variable ''c''],
      vector_names = [''v0'', ''v1''],
      scalar_names = [''s0''],
      exprs = [Operation ''+'' [Operation ''*'' [Subscript (Variable ''v0'') (Variable ''i''),
                                                Subscript (Variable ''v1'') (Variable ''i'')],
                               Variable ''s0''],
               Operation ''-'' [Operation ''*'' [Subscript (Variable ''v0'') (Variable ''i''),
                                                Subscript (Variable ''v1'') (Variable ''i'')],
                               Variable ''s0'']]\<rparr>"

definition fixture_code_mapper :: "expr list \<Rightarrow> error + string list \<times> string list" where
  "fixture_code_mapper es = Inr ([''_cse0 + s0'', ''_cse0 - s0''], [''v0[i]*v1[i]''])"

definition fixture_dtype_getter :: "(expr \<times> nat) list \<Rightarrow> (expr \<times> nat) list \<Rightarrow> error + nat" where
  "fixture_dtype_getter vector_dtype_map scalar_dtype_map = Inr 64"

section \<open>Properties of the plan search\<close>

subsection \<open>The benchmarking loop and the selection\<close>

lemmas fixture_eval =
  fixture_plan_def fixture_invalid_def fixture_costs_def fixture_tuple_costs_def
  optimize_plan_def no_plan_requested_def active_log_def log_setup_def log_insert_def
  first_word_def is_space_def scan_step_def scan_init_def select_plan_def split_value_def
  cost_of_def Let_def

lemma recorded_Nil [simp]: "recorded tf d [] = []"
  by (simp add: recorded_def)

lemma recorded_Cons:
  "recorded tf d (p # plans) = recorded tf d [p] @ recorded tf d plans"
  by (simp add: recorded_def)

lemma scan_step_unlogged:
  "snd (scan_step tf None d st p) = None"
  "benchmarked (fst (scan_step tf None d st p))
     = benchmarked st @ (if within_slack d p then [(p, tf p)] else [])"
  "plan_values (fst (scan_step tf None d st p))
     = plan_values st @ map number_entry (List.enumerate (length (plan_values st)) (recorded tf d [p]))"
  "inserted (fst (scan_step tf None d st p)) = inserted st"
  by (simp_all add: scan_step_def within_slack_def recorded_def number_entry_def cost_of_def Let_def
      split: option.splits prod.splits)

lemma scan_plans_Cons_unlogged:
  "scan_plans tf None d (p # ps) st = scan_plans tf None d ps (fst (scan_step tf None d st p))"
  using scan_step_unlogged(1) [of tf d st p]
  by (cases "scan_step tf None d st p") (simp split: option.splits)

lemma scan_plans_unlogged:
  "snd (scan_plans tf None d plans st) = None
   \<and> benchmarked (fst (scan_plans tf None d plans st))
       = benchmarked st @ map (\<lambda>p. (p, tf p)) (filter (within_slack d) plans)
   \<and> plan_values (fst (scan_plans tf None d plans st))
       = plan_values st
         @ map number_entry (List.enumerate (length (plan_values st)) (recorded tf d plans))
   \<and> inserted (fst (scan_plans tf None d plans st)) = inserted st"
proof (induction plans arbitrary: st)
  case Nil
  show ?case by simp
next
  case (Cons p plans)
  let ?st = "fst (scan_step tf None d st p)"
  let ?one = "recorded tf d [p]"
  have len: "length (plan_values ?st) = length (plan_values st) + length ?one"
    by (simp add: scan_step_unlogged)
  have r: "recorded tf d (p # plans) = ?one @ recorded tf d plans" by (rule recorded_Cons)
  show ?case
    unfolding scan_plans_Cons_unlogged
    using Cons.IH [of ?st]
    by (simp add: scan_step_unlogged len r enumerate_append_eq)
qed

lemma scan_step_called:
  assumes "within_slack d p"
  shows "(p, tf p) \<in> set (benchmarked (fst (scan_step tf lg d st p)))"
  using assms
  by (simp add: scan_step_def within_slack_def Let_def split: option.splits prod.splits sum.splits)

lemma scan_step_benchmarked_mono:
  "set (benchmarked st) \<subseteq> set (benchmarked (fst (scan_step tf lg d st p)))"
  by (auto simp add: scan_step_def Let_def split: option.splits prod.splits sum.splits)

lemma scan_plans_benchmarked_mono:
  "set (benchmarked st) \<subseteq> set (benchmarked (fst (scan_plans tf lg d plans st)))"
proof (induction plans arbitrary: st)
  case Nil
  show ?case by simp
next
  case (Cons p plans)
  obtain st1 e1 where s: "scan_step tf lg d st p = (st1, e1)" by (cases "scan_step tf lg d st p")
  have m: "set (benchmarked st) \<subseteq> set (benchmarked st1)"
    using scan_step_benchmarked_mono [of st tf lg d p] s by simp
  show ?case
  proof (cases e1)
    case None
    then show ?thesis using s m Cons.IH [of st1] by auto
  next
    case (Some e)
    then show ?thesis using s m by simp
  qed
qed

lemma scan_step_declined:
  assumes "within_slack d p \<longrightarrow> cost_of (tf p) = None"
  shows "snd (scan_step tf lg d st p) = None"
    and "plan_values (fst (scan_step tf lg d st p)) = plan_values st"
    and "inserted (fst (scan_step tf lg d st p)) = inserted st"
  using assms
  by (auto simp add: scan_step_def within_slack_def cost_of_def Let_def
      split: option.splits prod.splits sum.splits)

lemma scan_plans_all_declined:
  assumes "\<forall>c \<in> set (benchmarked (fst (scan_plans tf lg d plans st))). cost_of (snd c) = None"
  shows "snd (scan_plans tf lg d plans st) = None
       \<and> plan_values (fst (scan_plans tf lg d plans st)) = plan_values st
       \<and> inserted (fst (scan_plans tf lg d plans st)) = inserted st"
  using assms
proof (induction plans arbitrary: st)
  case Nil
  show ?case by simp
next
  case (Cons p plans)
  obtain st1 e1 where s: "scan_step tf lg d st p = (st1, e1)" by (cases "scan_step tf lg d st p")
  let ?final = "fst (scan_plans tf lg d (p # plans) st)"
  have sub: "set (benchmarked st1) \<subseteq> set (benchmarked ?final)"
  proof (cases e1)
    case None
    then show ?thesis using s scan_plans_benchmarked_mono [of st1 tf lg d plans] by simp
  next
    case (Some e)
    then show ?thesis using s by simp
  qed
  have dec: "within_slack d p \<longrightarrow> cost_of (tf p) = None"
  proof
    assume "within_slack d p"
    then have "(p, tf p) \<in> set (benchmarked st1)"
      using scan_step_called [of d p tf lg st] s by simp
    then have "(p, tf p) \<in> set (benchmarked ?final)" using sub by blast
    then show "cost_of (tf p) = None" using Cons.prems by fastforce
  qed
  from scan_step_declined [where tf = tf and d = d and p = p and lg = lg and st = st, OF dec] s
  have e: "e1 = None" and pv: "plan_values st1 = plan_values st" and ins: "inserted st1 = inserted st"
    by simp_all
  have run: "scan_plans tf lg d (p # plans) st = scan_plans tf lg d plans st1"
    using s e by simp
  have "\<forall>c \<in> set (benchmarked (fst (scan_plans tf lg d plans st1))). cost_of (snd c) = None"
    using Cons.prems unfolding run .
  from Cons.IH [OF this] show ?case unfolding run using pv ins by simp
qed

lemma argmax2_scan_first_max:
  "\<exists>pre c post. (a, m) # rest = pre @ (argmax2_scan a m rest, c) # post
      \<and> (\<forall>x \<in> set pre. snd x < c) \<and> (\<forall>x \<in> set post. snd x \<le> c)"
proof (induction rest arbitrary: a m)
  case Nil
  have "[(a, m)] = [] @ (argmax2_scan a m [], m) # []" by simp
  then show ?case by (metis empty_iff list.set(1) )
next
  case (Cons bv rest)
  obtain b v where bv: "bv = (b, v)" by (cases bv)
  show ?case
  proof (cases "v > m")
    case True
    from Cons.IH [of b v] obtain pre c post where
      d: "(b, v) # rest = pre @ (argmax2_scan b v rest, c) # post"
      and l: "\<forall>x \<in> set pre. snd x < c" and r: "\<forall>x \<in> set post. snd x \<le> c" by blast
    have "v \<le> c"
    proof (cases pre)
      case Nil then show ?thesis using d by simp
    next
      case (Cons h t) then show ?thesis using d l by auto
    qed
    then have "m < c" using True by simp
    then have "\<forall>x \<in> set ((a, m) # pre). snd x < c" using l by simp
    moreover have s: "argmax2_scan a m (bv # rest) = argmax2_scan b v rest"
      using True bv by simp
    have "(a, m) # bv # rest = ((a, m) # pre) @ (argmax2_scan a m (bv # rest), c) # post"
      unfolding s using d bv by simp
    ultimately show ?thesis using r by blast
  next
    case False
    from Cons.IH [of a m] obtain pre c post where
      d: "(a, m) # rest = pre @ (argmax2_scan a m rest, c) # post"
      and l: "\<forall>x \<in> set pre. snd x < c" and r: "\<forall>x \<in> set post. snd x \<le> c" by blast
    have s: "argmax2_scan a m (bv # rest) = argmax2_scan a m rest" using False bv by simp
    show ?thesis
    proof (cases pre)
      case Nil
      then have "(a, m) # rest = (argmax2_scan a m rest, c) # post" using d by (simp only: append_Nil)
      then have e: "argmax2_scan a m rest = a" "c = m" "post = rest"
        by (metis list.inject prod.inject)+
      have "(a, m) # bv # rest = [] @ (argmax2_scan a m (bv # rest), m) # (bv # rest)"
        unfolding s using e by simp
      moreover have "\<forall>x \<in> set (bv # rest). snd x \<le> m" using r e False bv by auto
      ultimately show ?thesis by (metis empty_iff list.set(1))
    next
      case (Cons h t)
      then have h: "h = (a, m)" and t: "rest = t @ (argmax2_scan a m rest, c) # post" using d by simp_all
      have "m < c" using l Cons h by simp
      then have "\<forall>x \<in> set ((a, m) # bv # t). snd x < c" using l Cons False bv by auto
      moreover have "(a, m) # bv # rest = ((a, m) # bv # t) @ (argmax2_scan a m (bv # rest), c) # post"
        unfolding s using t by simp
      ultimately show ?thesis using r by blast
    qed
  qed
qed


lemma argmin2_scan_first_min:
  "\<exists>pre c post. (a, m) # rest = pre @ (argmin2_scan a m rest, c) # post
      \<and> (\<forall>x \<in> set pre. c < snd x) \<and> (\<forall>x \<in> set post. c \<le> snd x)"
proof (induction rest arbitrary: a m)
  case Nil
  have "[(a, m)] = [] @ (argmin2_scan a m [], m) # []" by simp
  then show ?case by (metis empty_iff list.set(1))
next
  case (Cons bv rest)
  obtain b v where bv: "bv = (b, v)" by (cases bv)
  show ?case
  proof (cases "v < m")
    case True
    from Cons.IH [of b v] obtain pre c post where
      d: "(b, v) # rest = pre @ (argmin2_scan b v rest, c) # post"
      and l: "\<forall>x \<in> set pre. c < snd x" and r: "\<forall>x \<in> set post. c \<le> snd x" by blast
    have "c \<le> v"
    proof (cases pre)
      case Nil then show ?thesis using d by simp
    next
      case (Cons h t) then show ?thesis using d l by auto
    qed
    then have "c < m" using True by simp
    then have "\<forall>x \<in> set ((a, m) # pre). c < snd x" using l by simp
    moreover have s: "argmin2_scan a m (bv # rest) = argmin2_scan b v rest"
      using True bv by simp
    have "(a, m) # bv # rest = ((a, m) # pre) @ (argmin2_scan a m (bv # rest), c) # post"
      unfolding s using d bv by simp
    ultimately show ?thesis using r by blast
  next
    case False
    from Cons.IH [of a m] obtain pre c post where
      d: "(a, m) # rest = pre @ (argmin2_scan a m rest, c) # post"
      and l: "\<forall>x \<in> set pre. c < snd x" and r: "\<forall>x \<in> set post. c \<le> snd x" by blast
    have s: "argmin2_scan a m (bv # rest) = argmin2_scan a m rest" using False bv by simp
    show ?thesis
    proof (cases pre)
      case Nil
      then have "(a, m) # rest = (argmin2_scan a m rest, c) # post" using d by (simp only: append_Nil)
      then have e: "argmin2_scan a m rest = a" "c = m" "post = rest"
        by (metis list.inject prod.inject)+
      have "(a, m) # bv # rest = [] @ (argmin2_scan a m (bv # rest), m) # (bv # rest)"
        unfolding s using e by simp
      moreover have "\<forall>x \<in> set (bv # rest). m \<le> snd x" using r e False bv by auto
      ultimately show ?thesis by (metis empty_iff list.set(1))
    next
      case (Cons h t)
      then have h: "h = (a, m)" and t: "rest = t @ (argmin2_scan a m rest, c) # post" using d by simp_all
      have "c < m" using l Cons h by simp
      then have "\<forall>x \<in> set ((a, m) # bv # t). c < snd x" using l Cons False bv by auto
      moreover have "(a, m) # bv # rest = ((a, m) # bv # t) @ (argmin2_scan a m (bv # rest), c) # post"
        unfolding s using t by simp
      ultimately show ?thesis using r by blast
    qed
  qed
qed

lemma argmax2_first_max:
  assumes "xs \<noteq> []"
  shows "\<exists>pre r c post. xs = pre @ (r, c) # post \<and> argmax2 xs = Inr r
      \<and> (\<forall>x \<in> set pre. snd x < c) \<and> (\<forall>x \<in> set post. snd x \<le> c)"
proof -
  obtain a m rest where xs: "xs = (a, m) # rest" using assms by (cases xs) auto
  show ?thesis unfolding xs using argmax2_scan_first_max [of a m rest] by auto
qed

lemma argmin2_first_min:
  assumes "xs \<noteq> []"
  shows "\<exists>pre r c post. xs = pre @ (r, c) # post \<and> argmin2 xs = Inr r
      \<and> (\<forall>x \<in> set pre. c < snd x) \<and> (\<forall>x \<in> set post. c \<le> snd x)"
proof -
  obtain a m rest where xs: "xs = (a, m) # rest" using assms by (cases xs) auto
  show ?thesis unfolding xs using argmin2_scan_first_min [of a m rest] by auto
qed

lemma numbered_nth:
  assumes "pvs = map number_entry (List.enumerate 0 r)"
    and "pvs = pre @ ((n, p), c) # post"
  shows "n < length pvs" and "snd (pvs ! n) = c"
proof -
  have len: "length pre < length pvs" using assms(2) by simp
  then have lr: "length pre < length r" using assms(1) by simp
  have "pvs ! length pre = ((n, p), c)" using assms(2) by simp
  moreover have "pvs ! length pre = number_entry (length pre, r ! length pre)"
    using assms(1) lr by (simp add: nth_enumerate_eq)
  ultimately have n: "n = length pre" by (simp add: number_entry_def)
  show "n < length pvs" unfolding n by (rule len)
  show "snd (pvs ! n) = c" unfolding n using assms(2) by simp
qed

lemma select_plan_numbered:
  assumes "pvs = map number_entry (List.enumerate 0 r)"
    and "pvs = pre @ ((n, p), c) # post"
    and "(if maximize then argmax2 pvs else argmin2 pvs) = Inr (n, p)"
  shows "select_plan maximize pvs = Inr (p, c)"
proof -
  have "n < length pvs" and "snd (pvs ! n) = c" by (rule numbered_nth [OF assms(1,2)])+
  then show ?thesis using assms(3) by (simp add: select_plan_def)
qed

lemma py_max_Max: "xs \<noteq> [] \<Longrightarrow> py_max xs = Inr (Max (set xs))"
proof (cases xs)
  case Nil
  assume "xs \<noteq> []"
  then show ?thesis using Nil by simp
next
  case (Cons x rest)
  show ?thesis unfolding Cons by (simp only: py_max.simps Max.set_eq_fold)
qed

lemma optimize_plan_search:
  assumes "\<not> no_plan_requested opt_name debug_flags"
    and "plans = filter (\<lambda>p. invalid_reason p = None) plan_generator"
    and "plans \<noteq> []"
    and "log_setup (active_log debug_flags log_filename) plans = Inr logging"
    and "scan_plans target_func logging (occupancy_slack * Max (occupancy ` set plans)) plans scan_init
           = (st, raised)"
  shows "optimize_plan opt_name plan_generator target_func maximize debug_flags occupancy_slack
           log_filename =
     (case raised of
        Some e \<Rightarrow> \<lparr>benchmark_calls = benchmarked st, log_rows = [], outcome = Inl e\<rparr>
      | None \<Rightarrow> \<lparr>benchmark_calls = benchmarked st, log_rows = inserted st,
                  outcome = select_plan maximize (plan_values st)\<rparr>)"
proof -
  have "py_max (map occupancy plans) = Inr (Max (occupancy ` set plans))"
    using py_max_Max [of "map occupancy plans"] assms(3) by simp
  then show ?thesis
    using assms by (simp add: optimize_plan_def Let_def split: option.splits)
qed

lemma optimize_plan_unlogged:
  assumes "\<not> no_plan_requested opt_name debug_flags"
    and "plans = filter (\<lambda>p. invalid_reason p = None) plan_generator"
    and "plans \<noteq> []"
    and "active_log debug_flags log_filename = None"
    and "desired = occupancy_slack * Max (occupancy ` set plans)"
  shows "optimize_plan opt_name plan_generator target_func maximize debug_flags occupancy_slack
           log_filename =
     \<lparr>benchmark_calls = map (\<lambda>p. (p, target_func p)) (filter (within_slack desired) plans),
      log_rows = [],
      outcome = select_plan maximize
                  (map number_entry (List.enumerate 0 (recorded target_func desired plans)))\<rparr>"
proof -
  obtain st raised where s: "scan_plans target_func None desired plans scan_init = (st, raised)"
    by (cases "scan_plans target_func None desired plans scan_init")
  have ls: "log_setup (active_log debug_flags log_filename) plans = Inr None"
    using assms(4) by (simp add: log_setup_def)
  from scan_plans_unlogged [of target_func desired plans scan_init] s
  have r: "raised = None"
    and b: "benchmarked st = map (\<lambda>p. (p, target_func p)) (filter (within_slack desired) plans)"
    and v: "plan_values st = map number_entry (List.enumerate 0 (recorded target_func desired plans))"
    and i: "inserted st = []"
    by (simp_all add: scan_init_def)
  show ?thesis
    using optimize_plan_search [OF assms(1,2,3) ls, of target_func occupancy_slack st raised maximize] s
    unfolding assms(5) [symmetric] by (simp add: r b v i)
qed

lemma recorded_iff:
  "(p, c) \<in> set (recorded tf d plans) \<longleftrightarrow>
     p \<in> set plans \<and> occupancy p \<ge> d - 1 / 10 ^ 10 \<and> cost_of (tf p) = Some c"
  by (auto simp add: recorded_def within_slack_def split: if_splits option.splits)

lemma enumerate_eq_Nil: "List.enumerate n xs = [] \<longleftrightarrow> xs = []"
  by (cases xs) simp_all

lemma numbered_entry_recorded:
  assumes "pvs = map number_entry (List.enumerate 0 r)" and "((n, p), c) \<in> set pvs"
  shows "(p, c) \<in> set r"
proof -
  from assms obtain e where e: "e \<in> set (List.enumerate 0 r)" and ne: "number_entry e = ((n, p), c)"
    by auto
  obtain i x where ix: "e = (i, x)" by (cases e)
  have "x \<in> set r" using e ix by (auto simp add: in_set_enumerate_eq)
  moreover have "x = (p, c)" using ne ix by (cases x) (simp add: number_entry_def)
  ultimately show ?thesis by simp
qed

lemma select_plan_first_extremal:
  assumes "pvs = map number_entry (List.enumerate 0 r)" and "pvs \<noteq> []"
  shows "\<exists>pre num_plan plan cost post.
           pvs = pre @ ((num_plan, plan), cost) # post
         \<and> select_plan maximize pvs = Inr (plan, cost)
         \<and> (if maximize
            then (\<forall>e \<in> set pre. snd e < cost) \<and> (\<forall>e \<in> set post. snd e \<le> cost)
            else (\<forall>e \<in> set pre. cost < snd e) \<and> (\<forall>e \<in> set post. cost \<le> snd e))"
proof (cases maximize)
  case True
  from argmax2_first_max [OF assms(2)] obtain pre r' c post where
    d: "pvs = pre @ (r', c) # post" and a: "argmax2 pvs = Inr r'"
    and o: "(\<forall>x \<in> set pre. snd x < c) \<and> (\<forall>x \<in> set post. snd x \<le> c)" by blast
  obtain n p where r: "r' = (n, p)" by (cases r')
  have "select_plan maximize pvs = Inr (p, c)"
    by (rule select_plan_numbered [OF assms(1)]) (use d a r True in simp_all)
  then show ?thesis using d o r True by auto
next
  case False
  from argmin2_first_min [OF assms(2)] obtain pre r' c post where
    d: "pvs = pre @ (r', c) # post" and a: "argmin2 pvs = Inr r'"
    and o: "(\<forall>x \<in> set pre. c < snd x) \<and> (\<forall>x \<in> set post. c \<le> snd x)" by blast
  obtain n p where r: "r' = (n, p)" by (cases r')
  have "select_plan maximize pvs = Inr (p, c)"
    by (rule select_plan_numbered [OF assms(1)]) (use d a r False in simp_all)
  then show ?thesis using d o r False by auto
qed

lemma benchmark_calls_within_slack_unlogged:
  assumes "\<not> no_plan_requested opt_name debug_flags"
    and "plans = filter (\<lambda>p. invalid_reason p = None) plan_generator"
    and "plans \<noteq> []"
    and "active_log debug_flags log_filename = None"
  shows "benchmark_calls (optimize_plan opt_name plan_generator target_func maximize debug_flags
                            occupancy_slack log_filename)
       = map (\<lambda>p. (p, target_func p))
           (filter (\<lambda>p. occupancy p \<ge> occupancy_slack * Max (occupancy ` set plans) - 1 / 10 ^ 10)
              plans)"
  using optimize_plan_unlogged [OF assms refl, of target_func maximize occupancy_slack]
  by (simp add: within_slack_def [abs_def])

lemma outcome_first_extremal_unlogged:
  assumes "\<not> no_plan_requested opt_name debug_flags"
    and "plans = filter (\<lambda>p. invalid_reason p = None) plan_generator"
    and "plans \<noteq> []"
    and "active_log debug_flags log_filename = None"
    and "pvs = map number_entry (List.enumerate 0
                 (recorded target_func (occupancy_slack * Max (occupancy ` set plans)) plans))"
    and "pvs \<noteq> []"
  shows "\<exists>pre num_plan plan cost post.
           pvs = pre @ ((num_plan, plan), cost) # post
         \<and> outcome (optimize_plan opt_name plan_generator target_func maximize debug_flags
                       occupancy_slack log_filename)
             = Inr (plan, cost)
         \<and> (if maximize
            then (\<forall>e \<in> set pre. snd e < cost) \<and> (\<forall>e \<in> set post. snd e \<le> cost)
            else (\<forall>e \<in> set pre. cost < snd e) \<and> (\<forall>e \<in> set post. cost \<le> snd e))"
proof -
  have res: "outcome (optimize_plan opt_name plan_generator target_func maximize debug_flags
                       occupancy_slack log_filename) = select_plan maximize pvs"
    using optimize_plan_unlogged [OF assms(1,2,3,4) refl, of target_func maximize occupancy_slack]
      assms(5) by simp
  show ?thesis unfolding res by (rule select_plan_first_extremal [OF assms(5,6)])
qed

lemma optimize_plan_setup_fails:
  assumes "\<not> no_plan_requested opt_name debug_flags"
    and "plans = filter (\<lambda>p. invalid_reason p = None) plan_generator"
    and "plans \<noteq> []"
    and "log_setup (active_log debug_flags log_filename) plans = Inl e"
  shows "optimize_plan opt_name plan_generator target_func maximize debug_flags occupancy_slack
           log_filename = \<lparr>benchmark_calls = [], log_rows = [], outcome = Inl e\<rparr>"
proof -
  have "py_max (map occupancy plans) = Inr (Max (occupancy ` set plans))"
    using py_max_Max [of "map occupancy plans"] assms(3) by simp
  then show ?thesis using assms by (simp add: optimize_plan_def Let_def)
qed

subsection \<open>Claims about \<^verbatim>\<open>optimize_plan\<close>\<close>

text \<open>
  C4: when every plan the generator produces has an invalid reason, or the generator
  produces no plan, \<^verbatim>\<open>optimize_plan\<close> raises \<^verbatim>\<open>RuntimeError\<close> (line 72): nothing is
  benchmarked, nothing is logged and no pair is returned, whatever the flags, the
  benchmark function and the log file name.
\<close>

theorem optimize_plan_no_valid_plan:
  assumes "\<forall>p \<in> set plan_generator. invalid_reason p \<noteq> None"
  shows "optimize_plan opt_name plan_generator target_func maximize debug_flags occupancy_slack
           log_filename
           = \<lparr>benchmark_calls = [], log_rows = [],
              outcome = Inl (RuntimeError ''no valid CUDA execution plans found'')\<rparr>"
proof -
  have "filter (\<lambda>p. invalid_reason p = None) plan_generator = []"
    using assms by (simp add: filter_empty_conv)
  then show ?thesis by (simp add: optimize_plan_def)
qed

theorem optimize_plan_no_valid_plan_witness:
  "optimize_plan ''diff'' [fixture_invalid 1 ''too many threads'',
                          fixture_invalid 2 ''too much shared memory'']
       (fixture_costs [(1, 3), (2, 7)]) True {''cuda_plan_log''} (1 / 2) (Some ''diff-3'')
     = \<lparr>benchmark_calls = [], log_rows = [],
        outcome = Inl (RuntimeError ''no valid CUDA execution plans found'')\<rparr>
   \<and> optimize_plan ''diff'' [] (fixture_costs [(1, 3)]) False {''cuda_no_plan''} (1 / 2) None
     = \<lparr>benchmark_calls = [], log_rows = [],
        outcome = Inl (RuntimeError ''no valid CUDA execution plans found'')\<rparr>"
proof -
  have a: "optimize_plan ''diff'' [fixture_invalid 1 ''too many threads'',
                          fixture_invalid 2 ''too much shared memory'']
       (fixture_costs [(1, 3), (2, 7)]) True {''cuda_plan_log''} (1 / 2) (Some ''diff-3'')
     = \<lparr>benchmark_calls = [], log_rows = [],
        outcome = Inl (RuntimeError ''no valid CUDA execution plans found'')\<rparr>"
    by (rule optimize_plan_no_valid_plan) (simp add: fixture_invalid_def)
  have b: "optimize_plan ''diff'' [] (fixture_costs [(1, 3)]) False {''cuda_no_plan''} (1 / 2) None
     = \<lparr>benchmark_calls = [], log_rows = [],
        outcome = Inl (RuntimeError ''no valid CUDA execution plans found'')\<rparr>"
    by (rule optimize_plan_no_valid_plan) simp
  show ?thesis using a b by simp
qed

text \<open>
  C3: the claim asks that every valid plan at or above the occupancy threshold be passed
  to the benchmark function. The loop of lines 107-134 tests each plan against the
  threshold, but with plan logging on (the flag \<^verbatim>\<open>cuda_plan_log\<close> and a log file name) a
  benchmark that returns a bare cost leaves \<^verbatim>\<open>extra_info = None\<close> (line 122), and
  \<^verbatim>\<open>p.features(*extra_info)\<close> at line 134 raises \<^verbatim>\<open>TypeError\<close> as soon as the first cost
  has been recorded. Evaluated here for plans of occupancy \<open>1\<close>, \<open>0.9\<close> and \<open>0.1\<close> with
  slack \<open>0.5\<close>: the plan of occupancy \<open>0.9\<close> is valid and above the threshold, and the
  benchmark function is never called on it. With a benchmark that returns tuples, the
  same run benchmarks exactly the first two plans and logs a row for each.
\<close>

theorem optimize_plan_logging_stops_benchmarking:
  "invalid_reason (fixture_plan 2 (9 / 10)) = None
   \<and> occupancy (fixture_plan 2 (9 / 10)) \<ge> 1 / 2 * 1 - 1 / 10 ^ 10
   \<and> optimize_plan ''diff'' [fixture_plan 1 1, fixture_plan 2 (9 / 10), fixture_plan 3 (1 / 10)]
        (fixture_costs [(1, 3), (2, 7), (3, 5)]) True {''cuda_plan_log''} (1 / 2) (Some ''diff-3'')
       = \<lparr>benchmark_calls = [(fixture_plan 1 1, Scalar 3)], log_rows = [],
          outcome = Inl (TypeError ''features() argument after * must be a sequence, not NoneType'')\<rparr>
   \<and> optimize_plan ''diff'' [fixture_plan 1 1, fixture_plan 2 (9 / 10), fixture_plan 3 (1 / 10)]
        (fixture_tuple_costs [(1, 3), (2, 7), (3, 5)]) True {''cuda_plan_log''} (1 / 2) (Some ''diff-3'')
       = \<lparr>benchmark_calls = [(fixture_plan 1 1, Tuple (Some 3) [64, 1024]),
                             (fixture_plan 2 (9 / 10), Tuple (Some 7) [128, 1024])],
          log_rows = [([64, 1024], 3), ([128, 1024], 7)],
          outcome = Inr (fixture_plan 2 (9 / 10), 7)\<rparr>"
  by (simp add: fixture_eval)


text \<open>
  C1, as stated, fails. The occupancy test of line 113 can prune the only valid plan for
  which the benchmark has a cost, and then the selection raises on the empty list; with a
  flag \<^verbatim>\<open>cuda_no_plan\<close> the plan of largest occupancy is returned with cost \<open>0\<close> and the
  benchmark is never called; and with plan logging on, a benchmark that returns a bare
  cost makes line 134 raise \<^verbatim>\<open>TypeError\<close>.
\<close>

theorem optimize_plan_cost_counterexample:
  "fixture_plan 2 (1 / 10) \<in> set [fixture_plan 1 1, fixture_plan 2 (1 / 10)]
   \<and> invalid_reason (fixture_plan 2 (1 / 10)) = None
   \<and> cost_of (fixture_costs [(2, 5)] (fixture_plan 2 (1 / 10))) = Some 5
   \<and> optimize_plan ''diff'' [fixture_plan 1 1, fixture_plan 2 (1 / 10)]
        (fixture_costs [(2, 5)]) True {} (1 / 2) None
       = \<lparr>benchmark_calls = [(fixture_plan 1 1, NoneValue)], log_rows = [],
          outcome = Inl (ValueError ''argmax of empty iterable'')\<rparr>
   \<and> invalid_reason (fixture_plan 1 1) = None
   \<and> cost_of (fixture_costs [(1, 5)] (fixture_plan 1 1)) = Some 5
   \<and> optimize_plan ''diff'' [fixture_plan 1 1] (fixture_costs [(1, 5)]) True {''cuda_no_plan''}
        (1 / 2) None
       = \<lparr>benchmark_calls = [], log_rows = [], outcome = Inr (fixture_plan 1 1, 0)\<rparr>
   \<and> optimize_plan ''diff'' [fixture_plan 1 1] (fixture_costs [(1, 5)]) True {''cuda_plan_log''}
        (1 / 2) (Some ''diff-3'')
       = \<lparr>benchmark_calls = [(fixture_plan 1 1, Scalar 5)], log_rows = [],
          outcome = Inl (TypeError ''features() argument after * must be a sequence, not NoneType'')\<rparr>"
  by (simp add: fixture_eval)

text \<open>
  C1, amended: outside the no-plan short-circuit and with plan logging inactive (no flag
  \<^verbatim>\<open>cuda_plan_log\<close>, or no log file name), if the benchmark returns a cost for at least
  one valid plan whose occupancy is at least \<open>occupancy_slack\<close> times the largest
  occupancy of the valid plans minus \<open>10\<^sup>-\<^sup>1\<^sup>0\<close>, then \<^verbatim>\<open>optimize_plan\<close> returns a pair
  \<open>(plan, cost)\<close> where the plan is one the generator produced, is valid, and the cost is
  the one the benchmark returned for it (the first component, for a tuple).
\<close>

theorem optimize_plan_returns_benchmarked_plan:
  assumes "\<not> no_plan_requested opt_name debug_flags"
    and "active_log debug_flags log_filename = None"
    and "plans = filter (\<lambda>p. invalid_reason p = None) plan_generator"
    and "pw \<in> set plans"
    and "occupancy pw \<ge> occupancy_slack * Max (occupancy ` set plans) - 1 / 10 ^ 10"
    and "cost_of (target_func pw) = Some cw"
  shows "\<exists>p c. outcome (optimize_plan opt_name plan_generator target_func maximize debug_flags
                          occupancy_slack log_filename)
                 = Inr (p, c)
             \<and> p \<in> set plan_generator \<and> invalid_reason p = None
             \<and> cost_of (target_func p) = Some c"
proof -
  let ?d = "occupancy_slack * Max (occupancy ` set plans)"
  let ?r = "recorded target_func ?d plans"
  let ?pvs = "map number_entry (List.enumerate 0 ?r)"
  have ne: "plans \<noteq> []" using assms(4) by auto
  have res: "outcome (optimize_plan opt_name plan_generator target_func maximize debug_flags
                       occupancy_slack log_filename) = select_plan maximize ?pvs"
    using optimize_plan_unlogged [OF assms(1,3) ne assms(2) refl, of target_func maximize occupancy_slack]
    by simp
  have "(pw, cw) \<in> set ?r" using assms(4,5,6) by (simp add: recorded_iff)
  then have "?r \<noteq> []" by auto
  then have "?pvs \<noteq> []" by (simp add: enumerate_eq_Nil)
  from select_plan_first_extremal [OF refl this, of maximize] obtain pre n p c post where
    d: "?pvs = pre @ ((n, p), c) # post" and s: "select_plan maximize ?pvs = Inr (p, c)" by blast
  have "((n, p), c) \<in> set ?pvs" unfolding d by simp
  then have "(p, c) \<in> set ?r" by (rule numbered_entry_recorded [OF refl])
  then have "p \<in> set plans \<and> cost_of (target_func p) = Some c" by (simp add: recorded_iff)
  then show ?thesis using res s assms(3) by auto
qed

theorem optimize_plan_returns_benchmarked_plan_witness:
  "\<not> no_plan_requested ''diff'' {}
   \<and> active_log {} (Some ''diff-3'') = None
   \<and> fixture_plan 2 (9 / 10) \<in> set [fixture_plan 1 1, fixture_plan 2 (9 / 10), fixture_plan 3 (1 / 10)]
   \<and> cost_of (fixture_costs [(2, 7), (3, 5)] (fixture_plan 2 (9 / 10))) = Some 7
   \<and> (\<exists>p c. outcome (optimize_plan ''diff''
                   [fixture_plan 1 1, fixture_plan 2 (9 / 10), fixture_plan 3 (1 / 10)]
                   (fixture_costs [(2, 7), (3, 5)]) False {} (1 / 2) (Some ''diff-3'')) = Inr (p, c)
            \<and> p \<in> set [fixture_plan 1 1, fixture_plan 2 (9 / 10), fixture_plan 3 (1 / 10)]
            \<and> invalid_reason p = None
            \<and> cost_of (fixture_costs [(2, 7), (3, 5)] p) = Some c)
   \<and> outcome (optimize_plan ''diff''
                   [fixture_plan 1 1, fixture_plan 2 (9 / 10), fixture_plan 3 (1 / 10)]
                   (fixture_costs [(2, 7), (3, 5)]) False {} (1 / 2) (Some ''diff-3''))
       = Inr (fixture_plan 2 (9 / 10), 7)"
proof -
  let ?gen = "[fixture_plan 1 1, fixture_plan 2 (9 / 10), fixture_plan 3 (1 / 10)]"
  let ?tf = "fixture_costs [(2, 7), (3, 5)]"
  have h1: "\<not> no_plan_requested ''diff'' {}" by (simp add: no_plan_requested_def)
  have h0: "active_log {} (Some ''diff-3'') = None" by (simp add: active_log_def)
  have h2: "?gen = filter (\<lambda>p. invalid_reason p = None) ?gen" by (simp add: fixture_plan_def)
  have h3: "fixture_plan 2 (9 / 10) \<in> set ?gen" by simp
  have h4: "occupancy (fixture_plan 2 (9 / 10)) \<ge> (1 / 2) * Max (occupancy ` set ?gen) - 1 / 10 ^ 10"
    by (simp add: fixture_plan_def)
  have h5: "cost_of (?tf (fixture_plan 2 (9 / 10))) = Some 7" by (simp add: fixture_eval)
  note c = optimize_plan_returns_benchmarked_plan
    [where opt_name = "''diff''" and debug_flags = "{}" and log_filename = "Some ''diff-3''"
       and plans = ?gen and plan_generator = ?gen
       and pw = "fixture_plan 2 (9 / 10)" and occupancy_slack = "1 / 2" and target_func = ?tf
       and cw = 7 and maximize = False, OF h1 h0 h2 h3 h4 h5]
  have v: "outcome (optimize_plan ''diff'' ?gen ?tf False {} (1 / 2) (Some ''diff-3''))
      = Inr (fixture_plan 2 (9 / 10), 7)"
    by (simp add: fixture_eval)
  show ?thesis by (intro conjI) (rule h1, rule h0, rule h3, rule h5, rule c, rule v)
qed

text \<open>
  C10, as stated, fails under a flag \<^verbatim>\<open>cuda_no_plan\<close>: lines 74-77 return the plan of
  largest occupancy with cost \<open>0\<close>, although the benchmark, never called, would have
  declined every plan.
\<close>

theorem optimize_plan_no_plan_flag_counterexample:
  "invalid_reason (fixture_plan 1 1) = None
   \<and> cost_of (fixture_costs [] (fixture_plan 1 1)) = None
   \<and> optimize_plan ''diff'' [fixture_plan 1 1] (fixture_costs []) True {''cuda_no_plan''} (1 / 2) None
       = \<lparr>benchmark_calls = [], log_rows = [], outcome = Inr (fixture_plan 1 1, 0)\<rparr>"
  by (simp add: fixture_eval)

text \<open>
  C10, amended: outside the no-plan short-circuit, if some plan is valid and every call
  of the benchmark that the run makes returns no cost, then \<^verbatim>\<open>optimize_plan\<close> returns no
  pair but raises; and whenever the set-up of the log (lines 82-102) does not itself
  raise, the error is the one of the extremal selection applied to the empty list of
  recorded pairs.
\<close>

theorem optimize_plan_all_declined:
  assumes "\<not> no_plan_requested opt_name debug_flags"
    and "\<exists>p \<in> set plan_generator. invalid_reason p = None"
    and "\<forall>call \<in> set (benchmark_calls (optimize_plan opt_name plan_generator target_func maximize
                                        debug_flags occupancy_slack log_filename)).
           cost_of (snd call) = None"
  shows "(\<exists>e. outcome (optimize_plan opt_name plan_generator target_func maximize debug_flags
                        occupancy_slack log_filename) = Inl e)
       \<and> ((\<exists>logging. log_setup (active_log debug_flags log_filename)
                        (filter (\<lambda>p. invalid_reason p = None) plan_generator) = Inr logging)
            \<longrightarrow> outcome (optimize_plan opt_name plan_generator target_func maximize debug_flags
                          occupancy_slack log_filename)
                 = Inl (ValueError (if maximize then ''argmax of empty iterable''
                                    else ''argmin of empty iterable'')))"
proof -
  define plans where "plans = filter (\<lambda>p. invalid_reason p = None) plan_generator"
  let ?run = "optimize_plan opt_name plan_generator target_func maximize debug_flags
                occupancy_slack log_filename"
  let ?d = "occupancy_slack * Max (occupancy ` set plans)"
  have ne: "plans \<noteq> []" using assms(2) by (auto simp add: plans_def filter_empty_conv)
  show ?thesis
  proof (cases "log_setup (active_log debug_flags log_filename) plans")
    case (Inl e)
    have "outcome ?run = Inl e"
      using optimize_plan_setup_fails [OF assms(1) plans_def ne Inl, of target_func maximize occupancy_slack]
      by simp
    then show ?thesis using Inl unfolding plans_def [symmetric] by simp
  next
    case (Inr logging)
    obtain st raised where s: "scan_plans target_func logging ?d plans scan_init = (st, raised)"
      by (cases "scan_plans target_func logging ?d plans scan_init")
    note run = optimize_plan_search [OF assms(1) plans_def ne Inr s, of maximize]
    have calls: "benchmark_calls ?run = benchmarked st"
      unfolding run by (simp split: option.splits)
    have "\<forall>c \<in> set (benchmarked (fst (scan_plans target_func logging ?d plans scan_init))).
            cost_of (snd c) = None"
      using assms(3) unfolding calls s by simp
    from scan_plans_all_declined [OF this] s
    have r: "raised = None" and v: "plan_values st = []" by (simp_all add: scan_init_def)
    have "outcome ?run = Inl (ValueError (if maximize then ''argmax of empty iterable''
                                    else ''argmin of empty iterable''))"
      unfolding run by (simp add: r v select_plan_def)
    then show ?thesis by simp
  qed
qed

theorem optimize_plan_all_declined_witness:
  "\<not> no_plan_requested ''diff'' {''cuda_plan_log''}
   \<and> invalid_reason (fixture_plan 1 1) = None
   \<and> benchmark_calls (optimize_plan ''diff'' [fixture_plan 1 1, fixture_plan 2 (1 / 10)]
             (fixture_costs [(2, 5)]) False {''cuda_plan_log''} (1 / 2) (Some ''diff-3''))
       = [(fixture_plan 1 1, NoneValue)]
   \<and> cost_of (NoneValue :: nat bench_result) = None
   \<and> log_setup (active_log {''cuda_plan_log''} (Some ''diff-3''))
        (filter (\<lambda>p. invalid_reason p = None) [fixture_plan 1 1, fixture_plan 2 (1 / 10)])
       = Inr (Some [''threads'', ''smem''])
   \<and> outcome (optimize_plan ''diff'' [fixture_plan 1 1, fixture_plan 2 (1 / 10)]
             (fixture_costs [(2, 5)]) False {''cuda_plan_log''} (1 / 2) (Some ''diff-3''))
       = Inl (ValueError ''argmin of empty iterable'')"
proof -
  let ?gen = "[fixture_plan 1 1, fixture_plan 2 (1 / 10)]"
  let ?tf = "fixture_costs [(2, 5)]"
  let ?run = "optimize_plan ''diff'' ?gen ?tf False {''cuda_plan_log''} (1 / 2) (Some ''diff-3'')"
  have h1: "\<not> no_plan_requested ''diff'' {''cuda_plan_log''}" by (simp add: no_plan_requested_def)
  have v: "invalid_reason (fixture_plan 1 1) = None" by (simp add: fixture_plan_def)
  have h2: "\<exists>p \<in> set ?gen. invalid_reason p = None" using v by simp
  have t: "benchmark_calls ?run = [(fixture_plan 1 1, NoneValue)]"
    by (simp add: fixture_eval)
  have n: "cost_of (NoneValue :: nat bench_result) = None" by (simp add: cost_of_def split_value_def)
  have h3: "\<forall>call \<in> set (benchmark_calls ?run). cost_of (snd call) = None"
    unfolding t using n by simp
  have ls: "log_setup (active_log {''cuda_plan_log''} (Some ''diff-3''))
        (filter (\<lambda>p. invalid_reason p = None) ?gen) = Inr (Some [''threads'', ''smem''])"
    by (simp add: fixture_eval)
  from optimize_plan_all_declined [OF h1 h2 h3] ls
  have c: "outcome ?run = Inl (ValueError ''argmin of empty iterable'')" by simp
  show ?thesis by (intro conjI) (rule h1, rule v, rule t, rule n, rule ls, rule c)
qed

section \<open>Properties of the microblock search\<close>

lemma scan_as_find:
  assumes "0 < a" and "0 < d" and "\<forall>k \<in> set ks. 0 < k"
  shows "find_microblock_scan a d ks =
     (case find (\<lambda>k. padding_overhead a d k \<le> 5 / 100) ks of
        None \<Rightarrow> Inl (AssertionError ''a valid microblock size was not found'')
      | Some k \<Rightarrow> Inr \<lparr>align_size = a, elements = (a * k) div d, aligned_floats = a * k\<rparr>)"
  using assms
proof (induction ks)
  case Nil
  show ?case by simp
next
  case (Cons k ks)
  have "a * k \<noteq> 0" using Cons.prems by simp
  then show ?case using Cons by (simp add: padding_overhead_def Let_def)
qed


lemma upto_find_first:
  assumes "find P [1..n] = Some k"
  shows "1 \<le> k \<and> k \<le> n \<and> P k \<and> (\<forall>j. 1 \<le> j \<and> j < k \<longrightarrow> \<not> P j)"
proof -
  from assms obtain i where i: "i < length [1..n]" and p: "P ([1..n] ! i)"
    and k: "k = [1..n] ! i" and before: "\<forall>j<i. \<not> P ([1..n] ! j)"
    unfolding find_Some_iff by blast
  have len: "int i < n" using i by simp
  have ki: "k = 1 + int i" using k len by (simp add: nth_upto)
  have "\<not> P j" if "1 \<le> j" and "j < k" for j
  proof -
    have "nat (j - 1) < i" using that ki by simp
    then have "\<not> P ([1..n] ! nat (j - 1))" using before by blast
    moreover have "[1..n] ! nat (j - 1) = j" using that ki len by (simp add: nth_upto)
    ultimately show ?thesis by simp
  qed
  then show ?thesis using ki len p k by auto
qed

lemma upto_find_none:
  assumes "find P [1..n] = None"
  shows "\<forall>k. 1 \<le> k \<and> k \<le> n \<longrightarrow> \<not> P k"
  using assms unfolding find_None_iff by simp

lemma int_ceiling_rounds_up:
  assumes "0 < m"
  shows "\<exists>r. int_ceiling v m = Inr r \<and> m dvd r \<and> v \<le> r \<and> r < v + m"
proof -
  let ?c = "\<lceil>rat_of_int v / rat_of_int m\<rceil>"
  have mpos: "0 < rat_of_int m" using assms by simp
  have "rat_of_int v / rat_of_int m \<le> rat_of_int ?c" by (rule le_of_int_ceiling)
  then have "rat_of_int v \<le> rat_of_int ?c * rat_of_int m"
    by (simp only: pos_divide_le_eq [OF mpos])
  then have "rat_of_int v \<le> rat_of_int (?c * m)" by simp
  then have lo: "v \<le> ?c * m" by (simp only: of_int_le_iff)
  have "rat_of_int ?c - 1 < rat_of_int v / rat_of_int m"
    by (rule ceiling_correct [THEN conjunct1])
  then have "(rat_of_int ?c - 1) * rat_of_int m < rat_of_int v"
    by (simp only: pos_less_divide_eq [OF mpos])
  then have "rat_of_int ((?c - 1) * m) < rat_of_int v" by simp
  then have "(?c - 1) * m < v" by (simp only: of_int_less_iff)
  then have hi: "?c * m < v + m" by (simp add: algebra_simps)
  have "int_ceiling v m = Inr (?c * m)" using assms by (simp add: int_ceiling_def)
  then show ?thesis using lo hi by simp
qed

text \<open>
  C6: for a positive alignment size and a positive per-element DOF count. With
  microblocking allowed, either some multiple \<open>k\<close> between 1 and 255 of the alignment
  size has a padding overhead of at most 5%, every smaller multiple has a larger
  overhead, and the result is the microblock with \<^verbatim>\<open>aligned_floats = align_size * k\<close> and
  \<^verbatim>\<open>elements = aligned_floats // dofs_per_el\<close>; or no multiple in that range meets the
  bound and the assertion of line 261 fails. With microblocking disallowed the
  microblock has one element and \<^verbatim>\<open>aligned_floats\<close> is the DOF count rounded up to the
  next multiple of the alignment size.
\<close>

theorem find_microblock_size_first_fit:
  assumes "0 < align" and "0 < dofs_per_el"
  shows "((\<exists>k. 1 \<le> k \<and> k \<le> 255 \<and> padding_overhead align dofs_per_el k \<le> 5 / 100
             \<and> (\<forall>j. 1 \<le> j \<and> j < k \<longrightarrow> 5 / 100 < padding_overhead align dofs_per_el j)
             \<and> find_microblock_size True align dofs_per_el
                 = Inr \<lparr>align_size = align, elements = (align * k) div dofs_per_el,
                        aligned_floats = align * k\<rparr>)
          \<or> ((\<forall>k. 1 \<le> k \<and> k \<le> 255 \<longrightarrow> 5 / 100 < padding_overhead align dofs_per_el k)
             \<and> find_microblock_size True align dofs_per_el
                 = Inl (AssertionError ''a valid microblock size was not found'')))
       \<and> (\<exists>rounded. find_microblock_size False align dofs_per_el
                 = Inr \<lparr>align_size = align, elements = 1, aligned_floats = rounded\<rparr>
             \<and> align dvd rounded \<and> dofs_per_el \<le> rounded \<and> rounded < dofs_per_el + align)"
proof (rule conjI)
  let ?P = "\<lambda>k. padding_overhead align dofs_per_el k \<le> 5 / 100"
  have run: "find_microblock_size True align dofs_per_el =
     (case find ?P [1..255] of
        None \<Rightarrow> Inl (AssertionError ''a valid microblock size was not found'')
      | Some k \<Rightarrow> Inr \<lparr>align_size = align, elements = (align * k) div dofs_per_el,
                        aligned_floats = align * k\<rparr>)"
    unfolding find_microblock_size_def using scan_as_find [OF assms, of "[1..255]"] by simp
  show "(\<exists>k. 1 \<le> k \<and> k \<le> 255 \<and> padding_overhead align dofs_per_el k \<le> 5 / 100
             \<and> (\<forall>j. 1 \<le> j \<and> j < k \<longrightarrow> 5 / 100 < padding_overhead align dofs_per_el j)
             \<and> find_microblock_size True align dofs_per_el
                 = Inr \<lparr>align_size = align, elements = (align * k) div dofs_per_el,
                        aligned_floats = align * k\<rparr>)
          \<or> ((\<forall>k. 1 \<le> k \<and> k \<le> 255 \<longrightarrow> 5 / 100 < padding_overhead align dofs_per_el k)
             \<and> find_microblock_size True align dofs_per_el
                 = Inl (AssertionError ''a valid microblock size was not found''))"
  proof (cases "find ?P [1..255]")
    case None
    from upto_find_none [OF None] have "\<forall>k. 1 \<le> k \<and> k \<le> 255 \<longrightarrow> 5 / 100 < padding_overhead align dofs_per_el k"
      by (simp add: not_le)
    then show ?thesis using run None by simp
  next
    case (Some k)
    from upto_find_first [OF Some]
    have "1 \<le> k \<and> k \<le> 255 \<and> padding_overhead align dofs_per_el k \<le> 5 / 100
        \<and> (\<forall>j. 1 \<le> j \<and> j < k \<longrightarrow> 5 / 100 < padding_overhead align dofs_per_el j)"
      by (simp add: not_le)
    then show ?thesis using run Some by auto
  qed
next
  from int_ceiling_rounds_up [OF assms(1), of dofs_per_el] obtain r where
    r: "int_ceiling dofs_per_el align = Inr r" and p: "align dvd r \<and> dofs_per_el \<le> r \<and> r < dofs_per_el + align"
    by blast
  have "find_microblock_size False align dofs_per_el
      = Inr \<lparr>align_size = align, elements = 1, aligned_floats = r\<rparr>"
    using r by (simp add: find_microblock_size_def)
  then show "\<exists>rounded. find_microblock_size False align dofs_per_el
                 = Inr \<lparr>align_size = align, elements = 1, aligned_floats = rounded\<rparr>
             \<and> align dvd rounded \<and> dofs_per_el \<le> rounded \<and> rounded < dofs_per_el + align"
    using p by blast
qed

theorem find_microblock_size_first_fit_witness:
  "(0::int) < 16 \<and> (0::int) < 35
   \<and> (((\<exists>k. 1 \<le> k \<and> k \<le> 255 \<and> padding_overhead 16 35 k \<le> 5 / 100
             \<and> (\<forall>j. 1 \<le> j \<and> j < k \<longrightarrow> 5 / 100 < padding_overhead 16 35 j)
             \<and> find_microblock_size True 16 35
                 = Inr \<lparr>align_size = 16, elements = (16 * k) div 35, aligned_floats = 16 * k\<rparr>)
          \<or> ((\<forall>k. 1 \<le> k \<and> k \<le> 255 \<longrightarrow> 5 / 100 < padding_overhead 16 35 k)
             \<and> find_microblock_size True 16 35
                 = Inl (AssertionError ''a valid microblock size was not found'')))
       \<and> (\<exists>rounded. find_microblock_size False 16 35
                 = Inr \<lparr>align_size = 16, elements = 1, aligned_floats = rounded\<rparr>
             \<and> 16 dvd rounded \<and> 35 \<le> rounded \<and> rounded < 35 + 16))
   \<and> find_microblock_size True 16 35 = Inr \<lparr>align_size = 16, elements = 4, aligned_floats = 144\<rparr>
   \<and> find_microblock_size False 16 35 = Inr \<lparr>align_size = 16, elements = 1, aligned_floats = 48\<rparr>
   \<and> find_microblock_size True 1 1000
       = Inl (AssertionError ''a valid microblock size was not found'')"
proof -
  have h1: "(0::int) < 16" and h2: "(0::int) < 35" by simp_all
  note c = find_microblock_size_first_fit [OF h1 h2]
  have v1: "find_microblock_size True 16 35 = Inr \<lparr>align_size = 16, elements = 4, aligned_floats = 144\<rparr>"
    by (simp add: find_microblock_size_def upto.simps)
  have v2: "find_microblock_size False 16 35 = Inr \<lparr>align_size = 16, elements = 1, aligned_floats = 48\<rparr>"
    by (simp add: find_microblock_size_def int_ceiling_def ceiling_eq_iff)
  have v3: "find_microblock_size True 1 1000
       = Inl (AssertionError ''a valid microblock size was not found'')"
    by (simp add: find_microblock_size_def upto.simps)
  show ?thesis by (intro conjI) (rule h1, rule h2, rule c [THEN conjunct1], rule c [THEN conjunct2], rule v1, rule v2, rule v3)
qed

section \<open>Properties of the vector expression builder\<close>

subsection \<open>The substitution map and the rewrite\<close>

lemma foldl_union_map:
  "foldl (\<union>) A (map f xs) = A \<union> (\<Union>x \<in> set xs. f x)"
  by (induction xs arbitrary: A) auto

lemma map_of_rev_distinct:
  "distinct (map fst xs) \<Longrightarrow> map_of (rev xs) = map_of xs"
proof (induction xs)
  case Nil
  show ?case by simp
next
  case (Cons x xs)
  have notin: "fst x \<notin> fst ` set xs" using Cons.prems by simp
  have ih: "map_of (rev xs) = map_of xs" using Cons by simp
  show ?case
  proof (rule ext)
    fix k
    show "map_of (rev (x # xs)) k = map_of (x # xs) k"
    proof (cases "k = fst x")
      case True
      then have "map_of xs k = None" using notin by (simp add: map_of_eq_None_iff)
      then show ?thesis using True ih by (cases x) (simp add: map_add_def)
    next
      case False
      then show ?thesis using ih by (cases x) (simp add: map_add_def split: option.splits)
    qed
  qed
qed

lemma py_dict_distinct:
  "distinct (map fst pairs) \<Longrightarrow> py_dict pairs = map_of pairs"
  by (simp add: py_dict_def map_of_rev_distinct)

lemma names_length [simp]:
  "length (vector_names_for xs) = length xs" "length (scalar_names_for xs) = length xs"
  by (simp_all add: vector_names_for_def scalar_names_for_def)

lemma make_subst_map_eq:
  assumes "distinct (vecs @ scas)"
  shows "make_subst_map vecs scas =
     map_of (zip scas (map Variable (scalar_names_for scas)))
       ++ map_of (zip vecs (map (\<lambda>n. Subscript (Variable n) (Variable ''i'')) (vector_names_for vecs)))"
proof -
  let ?ps = "zip vecs (map (\<lambda>n. Subscript (Variable n) (Variable ''i'')) (vector_names_for vecs))
             @ zip scas (map (\<lambda>n. Variable n) (scalar_names_for scas))"
  have "map fst ?ps = vecs @ scas" by simp
  then have "distinct (map fst ?ps)" using assms by simp
  then have "py_dict ?ps = map_of ?ps" by (rule py_dict_distinct)
  then have m: "make_subst_map vecs scas = map_of ?ps" by (simp add: make_subst_map_def Let_def)
  have "map_of ?ps = map_of (zip scas (map Variable (scalar_names_for scas)))
       ++ map_of (zip vecs (map (\<lambda>n. Subscript (Variable n) (Variable ''i'')) (vector_names_for vecs)))"
    by (simp only: map_of_append)
  then show ?thesis using m by simp
qed



lemma make_subst_map_dom:
  assumes "distinct (vecs @ scas)"
  shows "dom (make_subst_map vecs scas) = set vecs \<union> set scas"
  unfolding make_subst_map_eq [OF assms] by (auto simp add: dom_map_of_zip)







lemmas builder_eval =
  init_builder_def make_subst_map_def py_dict_def vector_names_for_def scalar_names_for_def
  fixture_sum_def fixture_difference_def fixture_order_def fixture_is_vector_def
  fixture_builder_def handle_unsupported_expression_def raising_handler_def
  returning_handler_def
  str_nat.simps digit_char_def Let_def

lemma fixture_init:
  "init_builder raising_handler fixture_deps fixture_order [fixture_sum, fixture_difference] fixture_is_vector
     = Inr fixture_builder"
  by (simp add: builder_eval)

lemma init_builder_fields:
  assumes "init_builder inherited dep_mapper set_order ves is_vector_func = Inr b"
    and "deps = (\<Union>ve \<in> set ves. dep_mapper ve)"
  shows "vector_exprs b = filter is_vector_func (set_order deps)"
    and "scalar_exprs b = filter (\<lambda>dep. \<not> is_vector_func dep) (set_order deps)"
    and "substitute_all inherited (make_subst_map (vector_exprs b) (scalar_exprs b)) ves = Inr (exprs b)"
    and "vector_names b = vector_names_for (vector_exprs b)"
    and "scalar_names b = scalar_names_for (scalar_exprs b)"
proof -
  obtain first rest where ves: "ves = first # rest"
    using assms(1) by (cases ves) (simp_all add: init_builder_def)
  have d: "foldl (\<union>) (dep_mapper first) (map dep_mapper rest) = deps"
    using assms(2) ves by (simp add: foldl_union_map)
  let ?vecs = "filter is_vector_func (set_order deps)"
  let ?scas = "filter (\<lambda>dep. \<not> is_vector_func dep) (set_order deps)"
  from assms(1) have run: "(case substitute_all inherited (make_subst_map ?vecs ?scas) ves of
                Inl err \<Rightarrow> Inl err
              | Inr rewritten \<Rightarrow>
                  Inr \<lparr>vec_exprs = ves, vector_exprs = ?vecs, scalar_exprs = ?scas,
                       vector_names = vector_names_for ?vecs,
                       scalar_names = scalar_names_for ?scas,
                       exprs = rewritten\<rparr>) = Inr b"
    unfolding init_builder_def ves list.case Let_def d .
  then obtain rewritten where
    r: "substitute_all inherited (make_subst_map ?vecs ?scas) ves = Inr rewritten"
    and b: "b = \<lparr>vec_exprs = ves, vector_exprs = ?vecs, scalar_exprs = ?scas,
                       vector_names = vector_names_for ?vecs,
                       scalar_names = scalar_names_for ?scas,
                       exprs = rewritten\<rparr>"
    by (cases "substitute_all inherited (make_subst_map ?vecs ?scas) ves") auto
  show "vector_exprs b = ?vecs" using b by simp
  show "scalar_exprs b = ?scas" using b by simp
  show "substitute_all inherited (make_subst_map (vector_exprs b) (scalar_exprs b)) ves = Inr (exprs b)"
    using b r by simp
  show "vector_names b = vector_names_for (vector_exprs b)" using b by simp
  show "scalar_names b = scalar_names_for (scalar_exprs b)" using b by simp
qed


lemma kernel_code_lines_cse:
  assumes "code_mapper es = Inr (expr_codes, cse # cses)"
  shows "kernel_code_lines code_mapper es = Inl (NameError ''get_c_declarator'')"
  using assms by (simp add: kernel_code_lines_def cse_binding_lines_def)

lemma kernel_code_lines_no_cse:
  assumes "code_mapper es = Inr (expr_codes, [])"
  shows "kernel_code_lines code_mapper es = Inr (map result_line (List.enumerate 0 expr_codes))"
  using assms by (simp add: kernel_code_lines_def cse_binding_lines_def)

subsection \<open>Claims about the builder\<close>

text \<open>
  C7: when construction succeeds, and the iteration of the dependency set lists each of
  its elements once, every collected dependency is in the vector list exactly if the
  classifier holds for it and in the scalar list exactly if it does not; the two lists
  together hold all collected dependencies, share none, and repeat none.
\<close>

theorem init_builder_partitions_dependencies:
  assumes "init_builder inherited dep_mapper set_order ves is_vector_func = Inr b"
    and "deps = (\<Union>ve \<in> set ves. dep_mapper ve)"
    and "set (set_order deps) = deps"
    and "distinct (set_order deps)"
  shows "(\<forall>dep \<in> deps. (dep \<in> set (vector_exprs b) \<longleftrightarrow> is_vector_func dep)
                       \<and> (dep \<in> set (scalar_exprs b) \<longleftrightarrow> \<not> is_vector_func dep))
       \<and> set (vector_exprs b) \<union> set (scalar_exprs b) = deps
       \<and> set (vector_exprs b) \<inter> set (scalar_exprs b) = {}
       \<and> distinct (vector_exprs b) \<and> distinct (scalar_exprs b)"
proof -
  note f = init_builder_fields(1,2) [OF assms(1,2)]
  have "\<forall>dep \<in> deps. (dep \<in> set (vector_exprs b) \<longleftrightarrow> is_vector_func dep)
                       \<and> (dep \<in> set (scalar_exprs b) \<longleftrightarrow> \<not> is_vector_func dep)"
    unfolding f using assms(3) by simp
  moreover have "set (vector_exprs b) \<union> set (scalar_exprs b) = deps"
    unfolding f using assms(3) by auto
  moreover have "set (vector_exprs b) \<inter> set (scalar_exprs b) = {}"
    unfolding f by auto
  moreover have "distinct (vector_exprs b) \<and> distinct (scalar_exprs b)"
    unfolding f using assms(4) by simp
  ultimately show ?thesis by blast
qed

theorem init_builder_partitions_dependencies_witness:
  "init_builder raising_handler fixture_deps fixture_order [fixture_sum, fixture_difference] fixture_is_vector
     = Inr fixture_builder
   \<and> set (fixture_order (\<Union>ve \<in> set [fixture_sum, fixture_difference]. fixture_deps ve))
       = (\<Union>ve \<in> set [fixture_sum, fixture_difference]. fixture_deps ve)
   \<and> distinct (fixture_order (\<Union>ve \<in> set [fixture_sum, fixture_difference]. fixture_deps ve))
   \<and> (Variable ''a'' \<in> set (vector_exprs fixture_builder) \<longleftrightarrow> fixture_is_vector (Variable ''a''))
   \<and> (Variable ''a'' \<in> set (scalar_exprs fixture_builder) \<longleftrightarrow> \<not> fixture_is_vector (Variable ''a''))
   \<and> (Variable ''c'' \<in> set (vector_exprs fixture_builder) \<longleftrightarrow> fixture_is_vector (Variable ''c''))
   \<and> (Variable ''c'' \<in> set (scalar_exprs fixture_builder) \<longleftrightarrow> \<not> fixture_is_vector (Variable ''c''))
   \<and> set (vector_exprs fixture_builder) \<union> set (scalar_exprs fixture_builder)
       = (\<Union>ve \<in> set [fixture_sum, fixture_difference]. fixture_deps ve)
   \<and> set (vector_exprs fixture_builder) \<inter> set (scalar_exprs fixture_builder) = {}
   \<and> distinct (vector_exprs fixture_builder) \<and> distinct (scalar_exprs fixture_builder)
   \<and> vector_exprs fixture_builder = [Variable ''a'', Variable ''b'']
   \<and> scalar_exprs fixture_builder = [Variable ''c'']"
proof -
  let ?deps = "\<Union>ve \<in> set [fixture_sum, fixture_difference]. fixture_deps ve"
  have d: "?deps = {Variable ''a'', Variable ''b'', Variable ''c''}"
    by (auto simp add: fixture_sum_def fixture_difference_def)
  have h1: "init_builder raising_handler fixture_deps fixture_order [fixture_sum, fixture_difference] fixture_is_vector
     = Inr fixture_builder"
    by (rule fixture_init)
  have h3: "set (fixture_order ?deps) = ?deps" unfolding d by (auto simp add: fixture_order_def)
  have h4: "distinct (fixture_order ?deps)" unfolding d by (simp add: fixture_order_def)
  note c = init_builder_partitions_dependencies [OF h1 refl h3 h4]
  have a: "Variable ''a'' \<in> ?deps" and cc: "Variable ''c'' \<in> ?deps" unfolding d by simp_all
  from c a have a1: "Variable ''a'' \<in> set (vector_exprs fixture_builder) \<longleftrightarrow> fixture_is_vector (Variable ''a'')"
    and a2: "Variable ''a'' \<in> set (scalar_exprs fixture_builder) \<longleftrightarrow> \<not> fixture_is_vector (Variable ''a'')"
    by blast+
  from c cc have c1: "Variable ''c'' \<in> set (vector_exprs fixture_builder) \<longleftrightarrow> fixture_is_vector (Variable ''c'')"
    and c2: "Variable ''c'' \<in> set (scalar_exprs fixture_builder) \<longleftrightarrow> \<not> fixture_is_vector (Variable ''c'')"
    by blast+
  from c have u: "set (vector_exprs fixture_builder) \<union> set (scalar_exprs fixture_builder) = ?deps"
    and i: "set (vector_exprs fixture_builder) \<inter> set (scalar_exprs fixture_builder) = {}"
    and dv: "distinct (vector_exprs fixture_builder)" and ds: "distinct (scalar_exprs fixture_builder)"
    by blast+
  have v: "vector_exprs fixture_builder = [Variable ''a'', Variable ''b'']"
    and s: "scalar_exprs fixture_builder = [Variable ''c'']"
    by (simp_all add: fixture_builder_def)
  show ?thesis
    by (intro conjI) (rule h1, rule h3, rule h4, rule a1, rule a2, rule c1, rule c2, rule u, rule i,
        rule dv, rule ds, rule v, rule s)
qed




text \<open>
  C2: the claim asks that each common sub-expression binding be emitted once in the
  kernel body. The source attempts this in lines 126-132, one line per entry of
  \<^verbatim>\<open>code_mapper.cses\<close>, but the name \<^verbatim>\<open>get_c_declarator\<close> it calls there is bound nowhere
  in the module: as soon as the code mapper has recorded one common sub-expression,
  \<^verbatim>\<open>get_kernel\<close> raises \<^verbatim>\<open>NameError\<close> and no kernel body is produced. Evaluated here for
  the fused pair \<open>a*b + c\<close>, \<open>a*b - c\<close> with \<open>a*b\<close> as the recorded sub-expression.
\<close>

theorem get_kernel_with_cse_raises:
  "get_kernel fixture_builder fixture_dtype_getter fixture_code_mapper [32, 32] [64]
     = Inl (NameError ''get_c_declarator'')"
  by (simp add: get_kernel_def kernel_code_lines_def cse_binding_lines_def fixture_code_mapper_def
      fixture_dtype_getter_def)

end
